theory Spec2Isabelle
  imports Complex_Main "HOL-Library.Word" "HOL-Library.AList"
begin

section \<open>Strings\<close>

text \<open>
  A JavaScript string is a sequence of UTF-16 code units, and \<open>.length\<close> counts them.
  Identifiers, type tags and the lock's code are ASCII in the source and are written
  \<open>js ''...''\<close>; the Chinese texts and emoji of the source are written out as their code
  units (an emoji outside the basic plane is a surrogate pair), each with an English gloss.
\<close>

type_synonym jsstring = "16 word list"

definition js :: "string \<Rightarrow> jsstring" where
  "js s = map (\<lambda>c. of_nat (of_char c)) s"

text \<open>
  The template literal \<open>${n}\<close> of a number: its decimal digits, with a minus sign for
  a negative number.
\<close>

fun decimal :: "nat \<Rightarrow> jsstring" where
  "decimal n =
     (if n < 10 then [of_nat (48 + n)]
      else decimal (n div 10) @ [of_nat (48 + n mod 10)])"

declare decimal.simps [simp del]

definition numberToString :: "int \<Rightarrow> jsstring" where
  "numberToString n = (if n < 0 then js ''-'' @ decimal (nat (- n)) else decimal (nat n))"

subsection \<open>Texts of the lock and of the engine\<close>

definition msg_lock_locked :: jsstring where
  \<comment> \<open>the lock is locked\<close>
  "msg_lock_locked =
   [0x5BC6, 0x7801, 0x9501, 0x5DF2, 0x9501, 0x5B9A]"

definition msg_password_full :: jsstring where
  \<comment> \<open>the code is full\<close>
  "msg_password_full =
   [0x5BC6, 0x7801, 0x5DF2, 0x6EE1]"

definition msg_password_correct :: jsstring where
  \<comment> \<open>code correct, the lock is open\<close>
  "msg_password_correct =
   [0x5BC6, 0x7801, 0x6B63, 0x786E, 0xFF01, 0x9501, 0x5DF2, 0x6253, 0x5F00]"

definition msg_wrong_locked :: jsstring where
  \<comment> \<open>wrong code, the lock is now locked\<close>
  "msg_wrong_locked =
   [0x5BC6, 0x7801, 0x9519, 0x8BEF, 0xFF0C, 0x5BC6, 0x7801, 0x9501, 0x5DF2, 0x9501, 0x5B9A,
    0xFF01]"

definition msg_wrong_prefix :: jsstring where
  \<comment> \<open>wrong code, remaining (text before the number)\<close>
  "msg_wrong_prefix =
   [0x5BC6, 0x7801, 0x9519, 0x8BEF, 0xFF0C, 0x5269, 0x4F59]"

definition msg_wrong_suffix :: jsstring where
  \<comment> \<open>attempts (text after the number)\<close>
  "msg_wrong_suffix =
   [0x6B21, 0x5C1D, 0x8BD5, 0x673A, 0x4F1A]"

definition msg_no_object :: jsstring where
  \<comment> \<open>error: the object does not exist\<close>
  "msg_no_object =
   [0x9519, 0x8BEF, 0xFF1A, 0x5BF9, 0x8C61, 0x4E0D, 0x5B58, 0x5728]"

definition msg_nothing_special :: jsstring where
  \<comment> \<open>nothing special about this thing...\<close>
  "msg_nothing_special =
   [0x8FD9, 0x4E2A, 0x7269, 0x54C1, 0x6CA1, 0x6709, 0x4EC0, 0x4E48, 0x7279, 0x522B, 0x7684,
    0x002E, 0x002E, 0x002E]"

definition msg_cannot_now :: jsstring where
  \<comment> \<open>cannot do this now...\<close>
  "msg_cannot_now =
   [0x73B0, 0x5728, 0x4E0D, 0x80FD, 0x8FD9, 0x6837, 0x505A, 0x002E, 0x002E, 0x002E]"

definition msg_done :: jsstring where
  \<comment> \<open>operation completed\<close>
  "msg_done =
   [0x64CD, 0x4F5C, 0x5B8C, 0x6210]"

definition msg_no_item :: jsstring where
  \<comment> \<open>error: the item does not exist\<close>
  "msg_no_item =
   [0x9519, 0x8BEF, 0xFF1A, 0x7269, 0x54C1, 0x4E0D, 0x5B58, 0x5728]"

definition msg_cannot_get :: jsstring where
  \<comment> \<open>cannot obtain the item\<close>
  "msg_cannot_get =
   [0x65E0, 0x6CD5, 0x83B7, 0x5F97, 0x7269, 0x54C1]"

definition msg_cannot_consume :: jsstring where
  \<comment> \<open>cannot consume the item\<close>
  "msg_cannot_consume =
   [0x65E0, 0x6CD5, 0x6D88, 0x8017, 0x7269, 0x54C1]"

definition msg_unknown_action :: jsstring where
  \<comment> \<open>unknown action\<close>
  "msg_unknown_action =
   [0x672A, 0x77E5, 0x52A8, 0x4F5C]"

subsection \<open>Texts of the content\<close>

definition small_key_name :: jsstring where
  \<comment> \<open>(key emoji) small key\<close>
  "small_key_name =
   [0xD83D, 0xDD11, 0x0020, 0x5C0F, 0x94A5, 0x5319]"

definition small_key_description :: jsstring where
  \<comment> \<open>a small silver key that opens the drawer\<close>
  "small_key_description =
   [0x4E00, 0x628A, 0x94F6, 0x8272, 0x7684, 0x5C0F, 0x94A5, 0x5319, 0xFF0C, 0x53EF, 0x4EE5,
    0x6253, 0x5F00, 0x62BD, 0x5C49]"

definition key_icon :: jsstring where
  \<comment> \<open>(key emoji)\<close>
  "key_icon =
   [0xD83D, 0xDD11]"

definition golden_key_name :: jsstring where
  \<comment> \<open>(key emoji) golden key\<close>
  "golden_key_name =
   [0xD83D, 0xDD11, 0x0020, 0x91D1, 0x94A5, 0x5319]"

definition golden_key_description :: jsstring where
  \<comment> \<open>a golden key, the key of the door\<close>
  "golden_key_description =
   [0x4E00, 0x628A, 0x91D1, 0x8272, 0x7684, 0x94A5, 0x5319, 0xFF0C, 0x8FD9, 0x662F, 0x6253,
    0x5F00, 0x623F, 0x95E8, 0x7684, 0x94A5, 0x5319, 0xFF01]"

definition crumpled_paper_name :: jsstring where
  \<comment> \<open>(page emoji) crumpled paper\<close>
  "crumpled_paper_name =
   [0xD83D, 0xDCC4, 0x0020, 0x76B1, 0x7EB8, 0x56E2]"

definition crumpled_paper_description :: jsstring where
  \<comment> \<open>paper from the bin, it reads 7-2-4-9\<close>
  "crumpled_paper_description =
   [0x4ECE, 0x5783, 0x573E, 0x6876, 0x91CC, 0x627E, 0x5230, 0x7684, 0x7EB8, 0x56E2, 0xFF0C,
    0x4E0A, 0x9762, 0x5199, 0x7740, 0xFF1A, 0x0037, 0x002D, 0x0032, 0x002D, 0x0034, 0x002D,
    0x0039]"

definition paper_icon :: jsstring where
  \<comment> \<open>(page emoji)\<close>
  "paper_icon =
   [0xD83D, 0xDCC4]"

definition diary_name :: jsstring where
  \<comment> \<open>(notebook emoji) diary\<close>
  "diary_name =
   [0xD83D, 0xDCD4, 0x0020, 0x65E5, 0x8BB0, 0x672C]"

definition diary_description :: jsstring where
  \<comment> \<open>last page: remember, the order of the code is reversed\<close>
  "diary_description =
   [0x65E5, 0x8BB0, 0x6700, 0x540E, 0x4E00, 0x9875, 0xFF1A, 0x8BB0, 0x4F4F, 0xFF0C, 0x5BC6,
    0x7801, 0x9501, 0x7684, 0x987A, 0x5E8F, 0x662F, 0x53CD, 0x7684]"

definition diary_icon :: jsstring where
  \<comment> \<open>(notebook emoji)\<close>
  "diary_icon =
   [0xD83D, 0xDCD4]"

definition trash_bin_name :: jsstring where
  \<comment> \<open>(bin emoji) trash bin\<close>
  "trash_bin_name =
   [0xD83D, 0xDDD1, 0xFE0F, 0x0020, 0x5783, 0x573E, 0x6876]"

definition trash_bin_description :: jsstring where
  \<comment> \<open>a metal trash bin\<close>
  "trash_bin_description =
   [0x4E00, 0x4E2A, 0x91D1, 0x5C5E, 0x5783, 0x573E, 0x6876]"

definition plant_name :: jsstring where
  \<comment> \<open>(plant emoji) potted plant\<close>
  "plant_name =
   [0xD83E, 0xDEB4, 0x0020, 0x76C6, 0x683D]"

definition plant_description :: jsstring where
  \<comment> \<open>a withered plant\<close>
  "plant_description =
   [0x4E00, 0x76C6, 0x67AF, 0x840E, 0x7684, 0x7EFF, 0x690D]"

definition desk_drawer_name :: jsstring where
  \<comment> \<open>(old key emoji) desk drawer\<close>
  "desk_drawer_name =
   [0xD83D, 0xDDDD, 0xFE0F, 0x0020, 0x4E66, 0x684C, 0x62BD, 0x5C49]"

definition desk_drawer_description :: jsstring where
  \<comment> \<open>needs a key to open\<close>
  "desk_drawer_description =
   [0x9700, 0x8981, 0x94A5, 0x5319, 0x624D, 0x80FD, 0x6253, 0x5F00]"

definition safe_name :: jsstring where
  \<comment> \<open>(lock emoji) safe\<close>
  "safe_name =
   [0xD83D, 0xDD12, 0x0020, 0x4FDD, 0x9669, 0x7BB1]"

definition safe_description :: jsstring where
  \<comment> \<open>needs a 4-digit code\<close>
  "safe_description =
   [0x9700, 0x8981, 0x8F93, 0x5165, 0x0034, 0x4F4D, 0x5BC6, 0x7801]"

definition door_name :: jsstring where
  \<comment> \<open>(door emoji) door\<close>
  "door_name =
   [0xD83D, 0xDEAA, 0x0020, 0x623F, 0x95E8]"

definition door_description :: jsstring where
  \<comment> \<open>locked by the code lock\<close>
  "door_description =
   [0x88AB, 0x5BC6, 0x7801, 0x9501, 0x9501, 0x4F4F, 0x4E86]"

definition trash_search_name :: jsstring where
  \<comment> \<open>search the trash bin\<close>
  "trash_search_name =
   [0x7FFB, 0x627E, 0x5783, 0x573E, 0x6876]"

definition trash_search_description :: jsstring where
  \<comment> \<open>rummage in the trash bin\<close>
  "trash_search_description =
   [0x5728, 0x5783, 0x573E, 0x6876, 0x91CC, 0x7FFB, 0x627E]"

definition trash_title :: jsstring where
  \<comment> \<open>(page emoji) clue found\<close>
  "trash_title =
   [0xD83D, 0xDCC4, 0x0020, 0x53D1, 0x73B0, 0x7EBF, 0x7D22]"

definition trash_message :: jsstring where
  \<comment> \<open>you found a crumpled paper with the digits 7-2-4-9\<close>
  "trash_message =
   [0x4F60, 0x5728, 0x5783, 0x573E, 0x6876, 0x91CC, 0x627E, 0x5230, 0x4E86, 0x4E00, 0x5F20,
    0x76B1, 0x5DF4, 0x5DF4, 0x7684, 0x7EB8, 0x56E2, 0xFF0C, 0x4E0A, 0x9762, 0x6F66, 0x8349,
    0x5730, 0x5199, 0x7740, 0x6570, 0x5B57, 0xFF1A, 0x0037, 0x002D, 0x0032, 0x002D, 0x0034,
    0x002D, 0x0039]"

definition trash_hint :: jsstring where
  \<comment> \<open>maybe the code of some lock?\<close>
  "trash_hint =
   [0x4E5F, 0x8BB8, 0x8FD9, 0x662F, 0x67D0, 0x4E2A, 0x9501, 0x7684, 0x5BC6, 0x7801, 0xFF1F]"

definition plant_check_name :: jsstring where
  \<comment> \<open>check the plant\<close>
  "plant_check_name =
   [0x68C0, 0x67E5, 0x76C6, 0x683D]"

definition plant_check_description :: jsstring where
  \<comment> \<open>check the soil of the plant\<close>
  "plant_check_description =
   [0x68C0, 0x67E5, 0x76C6, 0x683D, 0x571F, 0x58E4]"

definition plant_title :: jsstring where
  \<comment> \<open>(key emoji) key found\<close>
  "plant_title =
   [0xD83D, 0xDD11, 0x0020, 0x53D1, 0x73B0, 0x94A5, 0x5319]"

definition plant_message :: jsstring where
  \<comment> \<open>you found a small silver key in the soil\<close>
  "plant_message =
   [0x4F60, 0x5728, 0x82B1, 0x76C6, 0x7684, 0x571F, 0x58E4, 0x91CC, 0x53D1, 0x73B0, 0x4E86,
    0x4E00, 0x628A, 0x94F6, 0x8272, 0x7684, 0x5C0F, 0x94A5, 0x5319, 0xFF01, 0x8FD9, 0x628A,
    0x94A5, 0x5319, 0x770B, 0x8D77, 0x6765, 0x53EF, 0x4EE5, 0x6253, 0x5F00, 0x4EC0, 0x4E48,
    0x4E1C, 0x897F, 0x002E, 0x002E, 0x002E]"

definition plant_hint :: jsstring where
  \<comment> \<open>try the desk drawer?\<close>
  "plant_hint =
   [0x53BB, 0x4E66, 0x684C, 0x62BD, 0x5C49, 0x8BD5, 0x8BD5, 0x770B, 0xFF1F]"

definition drawer_open_name :: jsstring where
  \<comment> \<open>open the drawer\<close>
  "drawer_open_name =
   [0x6253, 0x5F00, 0x62BD, 0x5C49]"

definition drawer_open_description :: jsstring where
  \<comment> \<open>try to open the desk drawer\<close>
  "drawer_open_description =
   [0x5C1D, 0x8BD5, 0x6253, 0x5F00, 0x4E66, 0x684C, 0x62BD, 0x5C49]"

definition drawer_failMessage :: jsstring where
  \<comment> \<open>(cross mark) the small key is needed\<close>
  "drawer_failMessage =
   [0x274C, 0x0020, 0x9700, 0x8981, 0x5C0F, 0x94A5, 0x5319]"

definition drawer_failHint :: jsstring where
  \<comment> \<open>the drawer is locked, find the key\<close>
  "drawer_failHint =
   [0x62BD, 0x5C49, 0x88AB, 0x9501, 0x4F4F, 0x4E86, 0xFF0C, 0x9700, 0x8981, 0x627E, 0x5230,
    0x94A5, 0x5319, 0x3002, 0x8BD5, 0x7740, 0x5728, 0x623F, 0x95F4, 0x91CC, 0x641C, 0x7D22,
    0x4E00, 0x4E0B, 0x002E, 0x002E, 0x002E]"

definition drawer_title :: jsstring where
  \<comment> \<open>(notebook emoji) diary obtained\<close>
  "drawer_title =
   [0xD83D, 0xDCD4, 0x0020, 0x83B7, 0x5F97, 0x65E5, 0x8BB0]"

definition drawer_message :: jsstring where
  \<comment> \<open>the drawer opens, you find a diary\<close>
  "drawer_message =
   [0x62BD, 0x5C49, 0x6253, 0x5F00, 0x4E86, 0xFF01, 0x4F60, 0x53D1, 0x73B0, 0x4E86, 0x4E00,
    0x672C, 0x65E5, 0x8BB0, 0x3002, 0x000A, 0x000A, 0x65E5, 0x8BB0, 0x7684, 0x6700, 0x540E,
    0x4E00, 0x9875, 0x5199, 0x7740, 0xFF1A, 0x0022, 0x8BB0, 0x4F4F, 0xFF0C, 0x5BC6, 0x7801,
    0x9501, 0x7684, 0x987A, 0x5E8F, 0x662F, 0x53CD, 0x7684, 0x002E, 0x002E, 0x002E, 0x0022]"

definition drawer_hint :: jsstring where
  \<comment> \<open>the order is reversed: 7-2-4-9 becomes 9-4-2-7\<close>
  "drawer_hint =
   [0x5BC6, 0x7801, 0x987A, 0x5E8F, 0x662F, 0x53CD, 0x7684, 0xFF01, 0x0037, 0x002D, 0x0032,
    0x002D, 0x0034, 0x002D, 0x0039, 0x53CD, 0x8FC7, 0x6765, 0x5C31, 0x662F, 0x0039, 0x002D,
    0x0034, 0x002D, 0x0032, 0x002D, 0x0037]"

definition safe_open_name :: jsstring where
  \<comment> \<open>open the safe\<close>
  "safe_open_name =
   [0x6253, 0x5F00, 0x4FDD, 0x9669, 0x7BB1]"

definition safe_open_description :: jsstring where
  \<comment> \<open>try to open the safe\<close>
  "safe_open_description =
   [0x5C1D, 0x8BD5, 0x6253, 0x5F00, 0x4FDD, 0x9669, 0x7BB1]"

definition safe_title :: jsstring where
  \<comment> \<open>(party emoji) the safe is open\<close>
  "safe_title =
   [0xD83C, 0xDF89, 0x0020, 0x4FDD, 0x9669, 0x7BB1, 0x6253, 0x5F00, 0x4E86, 0xFF01]"

definition safe_message :: jsstring where
  \<comment> \<open>click, the safe opens, a golden key is inside\<close>
  "safe_message =
   [0x5494, 0x54D2, 0xFF01, 0x4FDD, 0x9669, 0x7BB1, 0x6253, 0x5F00, 0x4E86, 0xFF01, 0x000A,
    0x000A, 0x91CC, 0x9762, 0x6709, 0x4E00, 0x628A, 0x91D1, 0x8272, 0x7684, 0x94A5, 0x5319,
    0xFF0C, 0x8FD9, 0x4E00, 0x5B9A, 0x662F, 0x6253, 0x5F00, 0x623F, 0x95E8, 0x7684, 0x94A5,
    0x5319, 0xFF01]"

definition safe_hint :: jsstring where
  \<comment> \<open>take the key to the door\<close>
  "safe_hint =
   [0x5E26, 0x7740, 0x8FD9, 0x628A, 0x94A5, 0x5319, 0x53BB, 0x5F00, 0x95E8, 0x5427, 0xFF01]"

definition safe_failMessage :: jsstring where
  \<comment> \<open>(cross mark) wrong code\<close>
  "safe_failMessage =
   [0x274C, 0x0020, 0x5BC6, 0x7801, 0x9519, 0x8BEF]"

definition safe_failHint :: jsstring where
  \<comment> \<open>think about the other clues...\<close>
  "safe_failHint =
   [0x518D, 0x60F3, 0x60F3, 0x5176, 0x4ED6, 0x7EBF, 0x7D22, 0x002E, 0x002E, 0x002E]"

definition door_unlock_name :: jsstring where
  \<comment> \<open>open the door\<close>
  "door_unlock_name =
   [0x5F00, 0x95E8]"

definition door_unlock_description :: jsstring where
  \<comment> \<open>try to open the door\<close>
  "door_unlock_description =
   [0x5C1D, 0x8BD5, 0x6253, 0x5F00, 0x623F, 0x95E8]"

definition door_failMessage :: jsstring where
  \<comment> \<open>(cross mark) the golden key is needed\<close>
  "door_failMessage =
   [0x274C, 0x0020, 0x9700, 0x8981, 0x91D1, 0x94A5, 0x5319]"

definition door_failHint :: jsstring where
  \<comment> \<open>the door is firmly locked, find the key...\<close>
  "door_failHint =
   [0x95E8, 0x88AB, 0x7262, 0x7262, 0x9501, 0x4F4F, 0x4E86, 0xFF0C, 0x9700, 0x8981, 0x627E,
    0x5230, 0x94A5, 0x5319, 0x002E, 0x002E, 0x002E]"

definition door_title :: jsstring where
  \<comment> \<open>(door emoji) escaped\<close>
  "door_title =
   [0xD83D, 0xDEAA, 0x0020, 0x6210, 0x529F, 0x9003, 0x8131, 0xFF01]"

definition door_message :: jsstring where
  \<comment> \<open>you opened the door with the golden key, you escaped\<close>
  "door_message =
   [0x4F60, 0x7528, 0x91D1, 0x94A5, 0x5319, 0x6253, 0x5F00, 0x4E86, 0x623F, 0x95E8, 0xFF01,
    0x000A, 0x000A, 0x0043, 0x006F, 0x006E, 0x0067, 0x0072, 0x0061, 0x0074, 0x0075, 0x006C,
    0x0061, 0x0074, 0x0069, 0x006F, 0x006E, 0x0073, 0x0021, 0x0020, 0x4F60, 0x6210, 0x529F,
    0x9003, 0x8131, 0x4E86, 0x5BC6, 0x5BA4, 0xFF01]"

definition door_hint :: jsstring where
  \<comment> \<open>(party emoji) game cleared\<close>
  "door_hint =
   [0xD83C, 0xDF89, 0x0020, 0x6E38, 0x620F, 0x901A, 0x5173, 0xFF01]"

section \<open>Item\<close>

text \<open>
  Numbers of the source (the uses of an item, the slots of the inventory, the attempts of
  the lock) are small counters and are modelled as integers.
\<close>

record Item =
  item_id :: jsstring
  item_name :: jsstring
  item_description :: jsstring
  item_icon :: jsstring
  canCollect :: bool
  collected :: bool
  consumable :: bool
  usesLeft :: int

definition Item_new :: "jsstring \<Rightarrow> jsstring \<Rightarrow> jsstring \<Rightarrow> jsstring \<Rightarrow> bool \<Rightarrow> Item" where
  "Item_new i n d ic cc = \<lparr>item_id = i, item_name = n, item_description = d, item_icon = ic,
     canCollect = cc, collected = False, consumable = False, usesLeft = 1\<rparr>"

definition clone :: "Item \<Rightarrow> Item" where
  "clone this =
     (Item_new (item_id this) (item_name this) (item_description this) (item_icon this)
        (canCollect this))
     \<lparr>collected := collected this, consumable := consumable this, usesLeft := usesLeft this\<rparr>"

definition use :: "Item \<Rightarrow> bool \<times> Item" where
  "use this =
     (if consumable this \<and> usesLeft this > 0 then (True, this\<lparr>usesLeft := usesLeft this - 1\<rparr>)
      else (False, this))"

section \<open>Actions\<close>

text \<open>
  An \<open>InteractionAction\<close> is a \<open>type\<close> tag and a payload; the tag selects the branch
  of \<open>executeAction\<close>, and a tag that is none of the six is \<open>OtherAction\<close>. The payload
  of \<open>show_message\<close> is its title, message and hint; of \<open>give_item\<close> and
  \<open>consume_item\<close> an item identifier; of \<open>require_item\<close> the item identifier, the
  fail message and the fail hint; of \<open>check_password\<close> the code, the nested success
  actions, the fail message and the fail hint; of \<open>set_state\<close> a key and a value.
\<close>

datatype Action =
    ShowMessage jsstring jsstring jsstring
  | GiveItem jsstring
  | RequireItem jsstring jsstring jsstring
  | ConsumeItem jsstring
  | CheckPassword jsstring "Action list" jsstring jsstring
  | SetState jsstring bool
  | OtherAction jsstring

section \<open>Outcomes\<close>

text \<open>
  Every operation returns an object literal with a \<open>success\<close> property and a few others;
  a property the literal does not have is \<open>None\<close>. The \<open>payload\<close> of a
  \<open>password_required\<close> outcome is the payload of the \<open>check_password\<close> action.
  The \<open>progress\<close> of a lock outcome is the quotient of two lengths, kept exact here.
\<close>

record Outcome =
  o_success :: bool
  o_type :: "jsstring option"
  o_message :: "jsstring option"
  o_title :: "jsstring option"
  o_hint :: "jsstring option"
  o_item :: "Item option"
  o_locked :: "bool option"
  o_progress :: "rat option"
  o_payload :: "(jsstring \<times> Action list \<times> jsstring \<times> jsstring) option"

definition outcome :: "bool \<Rightarrow> Outcome" where
  \<comment> \<open>the literal \<open>{ success: b }\<close>\<close>
  "outcome b = \<lparr>o_success = b, o_type = None, o_message = None, o_title = None,
     o_hint = None, o_item = None, o_locked = None, o_progress = None, o_payload = None\<rparr>"

definition failure :: "jsstring \<Rightarrow> Outcome" where
  \<comment> \<open>the literal \<open>{ success: false, message: m }\<close>\<close>
  "failure m = (outcome False)\<lparr>o_message := Some m\<rparr>"

section \<open>Inventory\<close>

text \<open>
  The \<open>Map\<close> of the inventory is an association list in insertion order: \<open>Map.set\<close>
  replaces the value of a key in place or appends a new key (\<open>AList.update\<close>),
  \<open>Map.delete\<close> removes the key (\<open>AList.delete\<close>), \<open>Map.size\<close> is the length.
\<close>

record Inventory =
  items :: "(jsstring \<times> Item) list"
  maxSlots :: int

definition Inventory_new :: Inventory where
  "Inventory_new = \<lparr>items = [], maxSlots = 20\<rparr>"

definition hasItem :: "Inventory \<Rightarrow> jsstring \<Rightarrow> bool" where
  "hasItem this itemId = (map_of (items this) itemId \<noteq> None)"

definition getItem :: "Inventory \<Rightarrow> jsstring \<Rightarrow> Item option" where
  "getItem this itemId = map_of (items this) itemId"

definition addItem :: "Item \<Rightarrow> Inventory \<Rightarrow> bool \<times> Inventory" where
  "addItem item this =
     (if int (length (items this)) \<ge> maxSlots this then (False, this)
      else if hasItem this (item_id item) \<and>
              (case getItem this (item_id item) of
                 Some existingItem \<Rightarrow> canCollect existingItem \<and> \<not> consumable existingItem
               | None \<Rightarrow> False)
      then (False, this)
      else (True, this\<lparr>items := AList.update (item_id item) item (items this)\<rparr>))"

definition removeItem :: "jsstring \<Rightarrow> Inventory \<Rightarrow> bool \<times> Inventory" where
  "removeItem itemId this =
     (if hasItem this itemId then (True, this\<lparr>items := AList.delete itemId (items this)\<rparr>)
      else (False, this))"

definition getAllItems :: "Inventory \<Rightarrow> Item list" where
  "getAllItems this = map snd (items this)"

definition getItemCount :: "Inventory \<Rightarrow> nat" where
  "getItemCount this = length (items this)"

definition clear :: "Inventory \<Rightarrow> Inventory" where
  "clear this = this\<lparr>items := []\<rparr>"

section \<open>Game state\<close>

text \<open>
  The values stored by the content are booleans; \<open>get\<close> is \<open>states.get(key) || false\<close>,
  which for a boolean is the value itself and \<open>false\<close> for an absent key.
\<close>

record GameState =
  states :: "(jsstring \<times> bool) list"
  flags :: "(jsstring \<times> bool) list"

definition GameState_new :: GameState where
  "GameState_new = \<lparr>states = [], flags = []\<rparr>"

definition gs_set :: "jsstring \<Rightarrow> bool \<Rightarrow> GameState \<Rightarrow> GameState" where
  "gs_set key v this = this\<lparr>states := AList.update key v (states this)\<rparr>"

definition gs_get :: "GameState \<Rightarrow> jsstring \<Rightarrow> bool" where
  "gs_get this key = (case map_of (states this) key of Some v \<Rightarrow> v | None \<Rightarrow> False)"

definition gs_has :: "GameState \<Rightarrow> jsstring \<Rightarrow> bool" where
  "gs_has this key = (map_of (states this) key \<noteq> None)"

definition setFlag :: "jsstring \<Rightarrow> bool \<Rightarrow> GameState \<Rightarrow> GameState" where
  "setFlag flag v this = this\<lparr>flags := AList.update flag v (flags this)\<rparr>"

definition hasFlag :: "GameState \<Rightarrow> jsstring \<Rightarrow> bool" where
  "hasFlag this flag = (case map_of (flags this) flag of Some v \<Rightarrow> v | None \<Rightarrow> False)"

section \<open>Trigger conditions\<close>

text \<open>
  The \<open>type\<close> tag of a condition selects the branch of \<open>evaluate\<close>; a tag that is none
  of the four falls to the \<open>default\<close> branch (\<open>OtherCondition\<close>).
\<close>

datatype TriggerCondition =
    HasItem jsstring
  | NoItem jsstring
  | StateEquals jsstring
  | Always
  | OtherCondition jsstring

fun evaluate :: "TriggerCondition \<Rightarrow> Inventory \<Rightarrow> GameState \<Rightarrow> bool" where
  "evaluate (HasItem targetItemId) inventory gameState = hasItem inventory targetItemId"
| "evaluate (NoItem targetItemId) inventory gameState = (\<not> hasItem inventory targetItemId)"
| "evaluate (StateEquals requiredState) inventory gameState =
     (gs_get gameState requiredState = True)"
| "evaluate Always inventory gameState = True"
| "evaluate (OtherCondition t) inventory gameState = False"

section \<open>Password system\<close>

record PasswordSystem =
  correctPassword :: jsstring
  enteredPassword :: jsstring
  maxAttempts :: int
  attemptsLeft :: int
  locked :: bool

definition PasswordSystem_new :: "jsstring \<Rightarrow> PasswordSystem" where
  \<comment> \<open>\<open>maxAttempts = 3\<close>, \<open>attemptsLeft = maxAttempts\<close>\<close>
  "PasswordSystem_new c = \<lparr>correctPassword = c, enteredPassword = [], maxAttempts = 3,
     attemptsLeft = 3, locked = False\<rparr>"

definition enterDigit :: "jsstring \<Rightarrow> PasswordSystem \<Rightarrow> Outcome \<times> PasswordSystem" where
  "enterDigit digit this =
     (if locked this then (failure msg_lock_locked, this)
      else if length (enteredPassword this) < length (correctPassword this) then
        (let this' = this\<lparr>enteredPassword := enteredPassword this @ digit\<rparr>
         in ((outcome True)\<lparr>o_progress :=
               Some (of_nat (length (enteredPassword this')) /
                     of_nat (length (correctPassword this')))\<rparr>, this'))
      else (failure msg_password_full, this))"

definition reset :: "PasswordSystem \<Rightarrow> PasswordSystem" where
  "reset this = this\<lparr>enteredPassword := [], attemptsLeft := maxAttempts this, locked := False\<rparr>"

definition submitPassword :: "PasswordSystem \<Rightarrow> Outcome \<times> PasswordSystem" where
  "submitPassword this =
     (if locked this then (failure msg_lock_locked, this)
      else if enteredPassword this = correctPassword this then
        ((outcome True)\<lparr>o_message := Some msg_password_correct\<rparr>, reset this)
      else
        (let this' = this\<lparr>attemptsLeft := attemptsLeft this - 1, enteredPassword := []\<rparr>
         in if attemptsLeft this' \<le> 0 then
              ((failure msg_wrong_locked)\<lparr>o_locked := Some True\<rparr>, this'\<lparr>locked := True\<rparr>)
            else
              (failure (msg_wrong_prefix @ numberToString (attemptsLeft this') @ msg_wrong_suffix),
               this')))"

definition getDisplay :: "PasswordSystem \<Rightarrow> jsstring" where
  "getDisplay this = replicate (length (enteredPassword this)) (of_nat (of_char (CHR ''*'')))"

section \<open>Scene objects and interactions\<close>

record Interaction =
  int_id :: jsstring
  int_name :: jsstring
  int_description :: jsstring
  conditions :: "TriggerCondition list"
  actions :: "Action list"
  executed :: bool

definition Interaction_new ::
  "jsstring \<Rightarrow> jsstring \<Rightarrow> jsstring \<Rightarrow> TriggerCondition list \<Rightarrow> Action list \<Rightarrow> Interaction" where
  "Interaction_new i n d cs as = \<lparr>int_id = i, int_name = n, int_description = d,
     conditions = cs, actions = as, executed = False\<rparr>"

definition canExecute :: "Interaction \<Rightarrow> Inventory \<Rightarrow> GameState \<Rightarrow> bool" where
  "canExecute this inventory gameState =
     list_all (\<lambda>condition. evaluate condition inventory gameState) (conditions this)"

record SceneObject =
  obj_id :: jsstring
  obj_name :: jsstring
  obj_description :: jsstring
  position :: "rat \<times> rat \<times> rat"
  interactions :: "Interaction list"
  triggers :: "TriggerCondition list"
  obj_collected :: bool
  obj_consumed :: bool

definition SceneObject_new :: "jsstring \<Rightarrow> jsstring \<Rightarrow> jsstring \<Rightarrow> rat \<times> rat \<times> rat \<Rightarrow> SceneObject" where
  "SceneObject_new i n d p = \<lparr>obj_id = i, obj_name = n, obj_description = d, position = p,
     interactions = [], triggers = [], obj_collected = False, obj_consumed = False\<rparr>"

definition addInteraction :: "Interaction \<Rightarrow> SceneObject \<Rightarrow> SceneObject" where
  "addInteraction interaction this = this\<lparr>interactions := interactions this @ [interaction]\<rparr>"

definition addTrigger :: "TriggerCondition \<Rightarrow> SceneObject \<Rightarrow> SceneObject" where
  "addTrigger trigger this = this\<lparr>triggers := triggers this @ [trigger]\<rparr>"

section \<open>The clue system\<close>

record ClueSystem =
  inventory :: Inventory
  gameState :: GameState
  passwordSystem :: PasswordSystem
  sceneObjects :: "(jsstring \<times> SceneObject) list"
  cs_interactions :: "(jsstring \<times> Interaction) list"
  cs_items :: "(jsstring \<times> Item) list"

subsection \<open>Content: \<open>initGameData\<close> and \<open>initInteractions\<close>\<close>

definition initItems :: "(jsstring \<times> Item) list" where
  "initItems =
     [(js ''small_key'',
         (Item_new (js ''small_key'') small_key_name small_key_description key_icon True)
         \<lparr>consumable := True\<rparr>),
      (js ''golden_key'',
         (Item_new (js ''golden_key'') golden_key_name golden_key_description key_icon True)
         \<lparr>consumable := True\<rparr>),
      (js ''crumpled_paper'',
         Item_new (js ''crumpled_paper'') crumpled_paper_name crumpled_paper_description
           paper_icon True),
      (js ''diary'', Item_new (js ''diary'') diary_name diary_description diary_icon True)]"

definition initSceneObjects :: "(jsstring \<times> SceneObject) list" where
  "initSceneObjects =
     [(js ''trash_bin'',
         SceneObject_new (js ''trash_bin'') trash_bin_name trash_bin_description (1.5, 0, 0.5)),
      (js ''plant'', SceneObject_new (js ''plant'') plant_name plant_description (2.5, 0, 1.5)),
      (js ''desk_drawer'',
         SceneObject_new (js ''desk_drawer'') desk_drawer_name desk_drawer_description
           (- 2, 0.8, 1.5)),
      (js ''safe'', SceneObject_new (js ''safe'') safe_name safe_description (2.8, 1.8, - 2)),
      (js ''door'', SceneObject_new (js ''door'') door_name door_description (2.5, 1.15, 0))]"

definition trashInteraction :: Interaction where
  "trashInteraction =
     Interaction_new (js ''trash_search'') trash_search_name trash_search_description
       [Always]
       [GiveItem (js ''crumpled_paper''),
        ShowMessage trash_title trash_message trash_hint]"

definition plantInteraction :: Interaction where
  "plantInteraction =
     Interaction_new (js ''plant_check'') plant_check_name plant_check_description
       [NoItem (js ''small_key'')]
       [GiveItem (js ''small_key''),
        ShowMessage plant_title plant_message plant_hint]"

definition drawerInteraction :: Interaction where
  "drawerInteraction =
     Interaction_new (js ''drawer_open'') drawer_open_name drawer_open_description
       [Always]
       [RequireItem (js ''small_key'') drawer_failMessage drawer_failHint,
        ConsumeItem (js ''small_key''),
        GiveItem (js ''diary''),
        ShowMessage drawer_title drawer_message drawer_hint]"

definition safeInteraction :: Interaction where
  "safeInteraction =
     Interaction_new (js ''safe_open'') safe_open_name safe_open_description
       [Always]
       [CheckPassword (js ''9427'')
          [GiveItem (js ''golden_key''),
           ShowMessage safe_title safe_message safe_hint]
          safe_failMessage safe_failHint]"

definition doorInteraction :: Interaction where
  "doorInteraction =
     Interaction_new (js ''door_unlock'') door_unlock_name door_unlock_description
       [Always]
       [RequireItem (js ''golden_key'') door_failMessage door_failHint,
        ShowMessage door_title door_message door_hint,
        SetState (js ''gameComplete'') True]"

text \<open>
  \<open>this.sceneObjects.get(id).addInteraction(i)\<close>. The five identifiers used by
  \<open>initInteractions\<close> are keys of the map just built; for an absent key the source
  would fault, here the map is left as it is.
\<close>

definition addInteractionTo ::
  "jsstring \<Rightarrow> Interaction \<Rightarrow> (jsstring \<times> SceneObject) list \<Rightarrow> (jsstring \<times> SceneObject) list" where
  "addInteractionTo objectId interaction objs =
     (case map_of objs objectId of
        Some object \<Rightarrow> AList.update objectId (addInteraction interaction object) objs
      | None \<Rightarrow> objs)"

definition initInteractions :: "ClueSystem \<Rightarrow> ClueSystem" where
  "initInteractions this =
     this\<lparr>sceneObjects :=
       addInteractionTo (js ''door'') doorInteraction
         (addInteractionTo (js ''safe'') safeInteraction
           (addInteractionTo (js ''desk_drawer'') drawerInteraction
             (addInteractionTo (js ''plant'') plantInteraction
               (addInteractionTo (js ''trash_bin'') trashInteraction (sceneObjects this)))))\<rparr>"

definition initGameData :: "ClueSystem \<Rightarrow> ClueSystem" where
  "initGameData this =
     initInteractions (this\<lparr>cs_items := initItems, sceneObjects := initSceneObjects\<rparr>)"

definition ClueSystem_new :: ClueSystem where
  "ClueSystem_new =
     initGameData \<lparr>inventory = Inventory_new, gameState = GameState_new,
       passwordSystem = PasswordSystem_new (js ''9427''), sceneObjects = [],
       cs_interactions = [], cs_items = []\<rparr>"

subsection \<open>Executing actions\<close>

fun executeAction :: "Action \<Rightarrow> ClueSystem \<Rightarrow> Outcome \<times> ClueSystem" where
  "executeAction (ShowMessage t m h) this =
     ((outcome True)\<lparr>o_type := Some (js ''show_message''), o_title := Some t,
        o_message := Some m, o_hint := Some h\<rparr>, this)"
| "executeAction (GiveItem payload) this =
     (case map_of (cs_items this) payload of
        None \<Rightarrow> (failure msg_no_item, this)
      | Some item \<Rightarrow>
          if hasItem (inventory this) (item_id item) then
            ((outcome True)\<lparr>o_type := Some (js ''item_owned''), o_item := Some item\<rparr>, this)
          else
            (case addItem (clone item) (inventory this) of
               (True, inv') \<Rightarrow>
                 ((outcome True)\<lparr>o_type := Some (js ''item_received''), o_item := Some item\<rparr>,
                  this\<lparr>inventory := inv'\<rparr>)
             | (False, inv') \<Rightarrow> (failure msg_cannot_get, this\<lparr>inventory := inv'\<rparr>)))"
| "executeAction (RequireItem itemId failMessage failHint) this =
     (if hasItem (inventory this) itemId then
        ((outcome True)\<lparr>o_type := Some (js ''requirement_met'')\<rparr>, this)
      else
        ((outcome False)\<lparr>o_type := Some (js ''requirement_missing''),
           o_message := Some failMessage, o_hint := Some failHint\<rparr>, this))"
| "executeAction (ConsumeItem payload) this =
     (case removeItem payload (inventory this) of
        (True, inv') \<Rightarrow>
          ((outcome True)\<lparr>o_type := Some (js ''item_consumed'')\<rparr>, this\<lparr>inventory := inv'\<rparr>)
      | (False, inv') \<Rightarrow> (failure msg_cannot_consume, this\<lparr>inventory := inv'\<rparr>))"
| "executeAction (CheckPassword correct successActions failMessage failHint) this =
     ((outcome True)\<lparr>o_type := Some (js ''password_required''),
        o_payload := Some (correct, successActions, failMessage, failHint)\<rparr>, this)"
| "executeAction (SetState key v) this =
     ((outcome True)\<lparr>o_type := Some (js ''state_set'')\<rparr>,
      this\<lparr>gameState := gs_set key v (gameState this)\<rparr>)"
| "executeAction (OtherAction t) this = (failure msg_unknown_action, this)"

fun executeActions :: "Action list \<Rightarrow> ClueSystem \<Rightarrow> Outcome \<times> ClueSystem" where
  "executeActions [] this = ((outcome True)\<lparr>o_message := Some msg_done\<rparr>, this)"
| "executeActions (action # rest) this =
     (case executeAction action this of
        (result, this') \<Rightarrow>
          if \<not> o_success result then (result, this') else executeActions rest this')"

text \<open>
  \<open>interact\<close> uses the first interaction of the object and, when the action list
  reports success, sets the \<open>executed\<close> field of that interaction object.
\<close>

definition markExecuted :: "jsstring \<Rightarrow> ClueSystem \<Rightarrow> ClueSystem" where
  "markExecuted objectId this =
     (case map_of (sceneObjects this) objectId of
        Some object \<Rightarrow>
          (case interactions object of
             interaction # rest \<Rightarrow>
               this\<lparr>sceneObjects :=
                 AList.update objectId
                   (object\<lparr>interactions := interaction\<lparr>executed := True\<rparr> # rest\<rparr>)
                   (sceneObjects this)\<rparr>
           | [] \<Rightarrow> this)
      | None \<Rightarrow> this)"

definition interact :: "jsstring \<Rightarrow> ClueSystem \<Rightarrow> Outcome \<times> ClueSystem" where
  "interact objectId this =
     (case map_of (sceneObjects this) objectId of
        None \<Rightarrow> (failure msg_no_object, this)
      | Some object \<Rightarrow>
          (case interactions object of
             [] \<Rightarrow> (failure msg_nothing_special, this)
           | interaction # _ \<Rightarrow>
               if \<not> canExecute interaction (inventory this) (gameState this) then
                 (failure msg_cannot_now, this)
               else
                 (case executeActions (actions interaction) this of
                    (result, this') \<Rightarrow>
                      if o_success result then (result, markExecuted objectId this')
                      else (result, this'))))"

subsection \<open>Password, inventory and state methods of the clue system\<close>

definition enterPasswordDigit :: "jsstring \<Rightarrow> ClueSystem \<Rightarrow> Outcome \<times> ClueSystem" where
  "enterPasswordDigit digit this =
     (case enterDigit digit (passwordSystem this) of
        (result, ps') \<Rightarrow> (result, this\<lparr>passwordSystem := ps'\<rparr>))"

definition cs_submitPassword :: "ClueSystem \<Rightarrow> Outcome \<times> ClueSystem" where
  "cs_submitPassword this =
     (case submitPassword (passwordSystem this) of
        (result, ps') \<Rightarrow>
          if o_success result then
            (result, this\<lparr>passwordSystem := ps',
               gameState := gs_set (js ''safePasswordKnown'') True
                              (setFlag (js ''safeOpened'') True (gameState this))\<rparr>)
          else (result, this\<lparr>passwordSystem := ps'\<rparr>))"

definition getPasswordDisplay :: "ClueSystem \<Rightarrow> jsstring" where
  "getPasswordDisplay this = getDisplay (passwordSystem this)"

definition getInventory :: "ClueSystem \<Rightarrow> Item list" where
  "getInventory this = getAllItems (inventory this)"

definition cs_hasItem :: "ClueSystem \<Rightarrow> jsstring \<Rightarrow> bool" where
  "cs_hasItem this itemId = hasItem (inventory this) itemId"

definition isGameComplete :: "ClueSystem \<Rightarrow> bool" where
  "isGameComplete this = gs_get (gameState this) (js ''gameComplete'')"

section \<open>Runs of the lock and of an action list\<close>

text \<open>
  A caller drives the lock through \<open>enterDigit\<close>, \<open>submitPassword\<close> and \<open>reset\<close>.
  \<open>lockRun\<close> performs a sequence of such calls and collects what each call returns
  (\<open>reset\<close> returns nothing); \<open>enterDigits\<close> is a sequence of \<open>enterDigit\<close> calls,
  and \<open>attempt\<close> is such a sequence followed by \<open>submitPassword\<close>.
\<close>

datatype LockOp = EnterDigit jsstring | Submit | Reset

fun lockOp :: "LockOp \<Rightarrow> PasswordSystem \<Rightarrow> Outcome option \<times> PasswordSystem" where
  "lockOp (EnterDigit d) this = (case enterDigit d this of (r, this') \<Rightarrow> (Some r, this'))"
| "lockOp Submit this = (case submitPassword this of (r, this') \<Rightarrow> (Some r, this'))"
| "lockOp Reset this = (None, reset this)"

fun lockRun :: "LockOp list \<Rightarrow> PasswordSystem \<Rightarrow> Outcome option list \<times> PasswordSystem" where
  "lockRun [] this = ([], this)"
| "lockRun (op # ops) this =
     (case lockOp op this of
        (r, this') \<Rightarrow> (case lockRun ops this' of (rs, this'') \<Rightarrow> (r # rs, this'')))"

definition enterDigits :: "jsstring list \<Rightarrow> PasswordSystem \<Rightarrow> PasswordSystem" where
  "enterDigits ds this = snd (lockRun (map EnterDigit ds) this)"

definition attempt :: "jsstring list \<Rightarrow> PasswordSystem \<Rightarrow> Outcome \<times> PasswordSystem" where
  "attempt ds this = submitPassword (enterDigits ds this)"

text \<open>
  A lock call that enters a digit passes one character (the empty string is let through
  as well, it adds nothing).
\<close>

fun singleDigit :: "LockOp \<Rightarrow> bool" where
  "singleDigit (EnterDigit d) = (length d \<le> 1)"
| "singleDigit Submit = True"
| "singleDigit Reset = True"

definition lockInv :: "jsstring \<Rightarrow> PasswordSystem \<Rightarrow> bool" where
  "lockInv c p \<longleftrightarrow>
     correctPassword p = c \<and> length (enteredPassword p) \<le> length c \<and>
     (locked p \<longrightarrow> enteredPassword p = [] \<and> c \<noteq> [])"

definition lockOk :: "PasswordSystem \<Rightarrow> bool" where
  "lockOk p \<longleftrightarrow>
     (correctPassword p = [] \<longrightarrow> enteredPassword p = []) \<and>
     (locked p \<longrightarrow> enteredPassword p = [] \<and> correctPassword p \<noteq> [])"

text \<open>
  \<open>actionOutcomes\<close> lists the value of \<open>result\<close> at each iteration of the loop of
  \<open>executeActions\<close>: the outcome of every action the loop executes, in order, up to and
  including the first failure.
\<close>

fun actionOutcomes :: "Action list \<Rightarrow> ClueSystem \<Rightarrow> Outcome list" where
  "actionOutcomes [] this = []"
| "actionOutcomes (action # rest) this =
     (case executeAction action this of
        (result, this') \<Rightarrow>
          result # (if \<not> o_success result then [] else actionOutcomes rest this'))"

text \<open>
  The calls a player makes on the clue system, and the state after a sequence of them.
\<close>

datatype Call = Interact jsstring | EnterPasswordDigit jsstring | SubmitPassword

fun call :: "Call \<Rightarrow> ClueSystem \<Rightarrow> Outcome \<times> ClueSystem" where
  "call (Interact objectId) this = interact objectId this"
| "call (EnterPasswordDigit digit) this = enterPasswordDigit digit this"
| "call SubmitPassword this = cs_submitPassword this"

fun calls :: "Call list \<Rightarrow> ClueSystem \<Rightarrow> ClueSystem" where
  "calls [] this = this"
| "calls (c # cs) this = calls cs (snd (call c this))"

text \<open>
  \<open>catalogued\<close>: every catalogue entry is stored under its own identifier, and every
  identifier held in the inventory is one of the catalogue.
\<close>

definition catalogued :: "ClueSystem \<Rightarrow> bool" where
  "catalogued this \<longleftrightarrow>
     list_all (\<lambda>(k, item). item_id item = k) (cs_items this) \<and>
     list_all (\<lambda>(k, item). map_of (cs_items this) k \<noteq> None) (items (inventory this))"

text \<open>
  Three runs of the reference content: a fresh system granted the small key, a fresh
  system granted the golden key, and the safe opened by its code (the player looks at the
  safe, enters 9, 4, 2, 7 and is about to submit).
\<close>

definition withSmallKey :: ClueSystem where
  "withSmallKey = snd (executeAction (GiveItem (js ''small_key'')) ClueSystem_new)"

definition withGoldenKey :: ClueSystem where
  "withGoldenKey = snd (executeAction (GiveItem (js ''golden_key'')) ClueSystem_new)"

definition safeCodeEntered :: ClueSystem where
  "safeCodeEntered =
     calls [Interact (js ''safe''), EnterPasswordDigit (js ''9''), EnterPasswordDigit (js ''4''),
            EnterPasswordDigit (js ''2''), EnterPasswordDigit (js ''7'')] ClueSystem_new"

text \<open>
  A full inventory: the player has searched the trash bin and holds the crumpled paper,
  in an inventory of a single slot.
\<close>

definition paperInFullInventory :: ClueSystem where
  "paperInFullInventory =
     (calls [Interact (js ''trash_bin'')] ClueSystem_new)
     \<lparr>inventory := (inventory (calls [Interact (js ''trash_bin'')] ClueSystem_new))
        \<lparr>maxSlots := 1\<rparr>\<rparr>"

text \<open>The small key of the catalogue.\<close>

definition smallKey :: Item where
  "smallKey =
     (Item_new (js ''small_key'') small_key_name small_key_description key_icon True)
     \<lparr>consumable := True\<rparr>"

text \<open>
  Two properties of the content that a run keeps: no interaction has, among its own
  actions, the grant of the golden key, and an interaction that sets the state
  \<open>gameComplete\<close> starts by requiring the golden key. \<open>keyless\<close> adds that the
  golden key is not held and the game is not complete.
\<close>

fun setsComplete :: "Action \<Rightarrow> bool" where
  "setsComplete (SetState key v) = (key = js ''gameComplete'')"
| "setsComplete _ = False"

definition completionGuarded :: "Action list \<Rightarrow> bool" where
  "completionGuarded as \<longleftrightarrow>
     list_all (\<lambda>action. \<not> setsComplete action) as \<or>
     (case as of RequireItem itemId _ _ # _ \<Rightarrow> itemId = js ''golden_key'' | _ \<Rightarrow> False)"

definition keyless :: "ClueSystem \<Rightarrow> bool" where
  "keyless this \<longleftrightarrow>
     \<not> hasItem (inventory this) (js ''golden_key'') \<and>
     \<not> gs_get (gameState this) (js ''gameComplete'') \<and>
     list_all (\<lambda>(k, object).
       list_all (\<lambda>interaction.
           GiveItem (js ''golden_key'') \<notin> set (actions interaction) \<and>
           completionGuarded (actions interaction))
         (interactions object))
       (sceneObjects this)"

section \<open>Facts about strings\<close>

lemma of_char_less_256: "(of_char e :: nat) < 256"
proof -
  have "(of_char e :: nat) mod 256 = of_char e" by simp
  then show ?thesis by (metis mod_less_divisor zero_less_numeral)
qed

lemma js_unit_inj: "(of_nat (of_char c) :: 16 word) = of_nat (of_char d) \<longleftrightarrow> c = d"
proof
  assume h: "(of_nat (of_char c) :: 16 word) = of_nat (of_char d)"
  have b: "(of_char e :: nat) < 2 ^ 16" for e :: char
    by (rule less_trans [OF of_char_less_256]) simp
  from h have "unat (of_nat (of_char c) :: 16 word) = unat (of_nat (of_char d) :: 16 word)"
    by simp
  then have "(of_char c :: nat) = of_char d"
    using b [of c] b [of d] by (simp add: unat_of_nat take_bit_eq_mod)
  then show "c = d" by simp
qed simp

lemma js_eq_iff [simp]: "js s = js t \<longleftrightarrow> s = t"
proof -
  have "inj (\<lambda>c::char. (of_nat (of_char c) :: 16 word))"
    by (rule injI) (simp add: js_unit_inj)
  then show ?thesis unfolding js_def by (simp add: inj_map_eq_map)
qed

lemma js_Nil [simp]: "js [] = []"
  by (simp add: js_def)

lemma length_js [simp]: "length (js s) = length s"
  by (simp add: js_def)

lemma js_append [simp]: "js s @ js t = js (s @ t)"
  by (simp add: js_def)

lemma js_eq_Nil [simp]: "js s = [] \<longleftrightarrow> s = []"
  by (simp add: js_def)

lemma Nil_eq_js [simp]: "[] = js s \<longleftrightarrow> s = []"
  by (simp add: js_def)

section \<open>The combination lock\<close>

lemma enterDigit_locked: "locked p \<Longrightarrow> enterDigit d p = (failure msg_lock_locked, p)"
  by (simp add: enterDigit_def)

lemma submitPassword_locked: "locked p \<Longrightarrow> submitPassword p = (failure msg_lock_locked, p)"
  by (simp add: submitPassword_def)

lemma lockRun_locked:
  "locked p \<Longrightarrow> Reset \<notin> set ops \<Longrightarrow>
   lockRun ops p = (map (\<lambda>_. Some (failure msg_lock_locked)) ops, p)"
proof (induction ops)
  case Nil
  then show ?case by simp
next
  case (Cons op ops)
  then show ?case
    by (cases op) (simp_all add: enterDigit_locked submitPassword_locked)
qed

lemma enterDigit_fields:
  "correctPassword (snd (enterDigit d p)) = correctPassword p \<and>
   maxAttempts (snd (enterDigit d p)) = maxAttempts p \<and>
   attemptsLeft (snd (enterDigit d p)) = attemptsLeft p \<and>
   locked (snd (enterDigit d p)) = locked p"
  by (simp add: enterDigit_def Let_def)

lemma enterDigits_Nil [simp]: "enterDigits [] p = p"
  by (simp add: enterDigits_def)

lemma enterDigits_Cons: "enterDigits (d # ds) p = enterDigits ds (snd (enterDigit d p))"
  by (simp add: enterDigits_def split: prod.splits)

lemma enterDigits_fields:
  "correctPassword (enterDigits ds p) = correctPassword p \<and>
   maxAttempts (enterDigits ds p) = maxAttempts p \<and>
   attemptsLeft (enterDigits ds p) = attemptsLeft p \<and>
   locked (enterDigits ds p) = locked p"
  by (induction ds arbitrary: p) (simp_all add: enterDigit_fields enterDigits_Cons)

lemma attempt_mismatch:
  assumes "\<not> locked p" and "enteredPassword (enterDigits ds p) \<noteq> correctPassword p"
    and "attempt ds p = (r, q)"
  shows "\<not> o_success r \<and> enteredPassword q = [] \<and> attemptsLeft q = attemptsLeft p - 1 \<and>
         correctPassword q = correctPassword p \<and> maxAttempts q = maxAttempts p \<and>
         locked q = (attemptsLeft p \<le> 1) \<and>
         o_locked r = (if attemptsLeft p \<le> 1 then Some True else None)"
proof -
  let ?e = "enterDigits ds p"
  have f: "correctPassword ?e = correctPassword p" "maxAttempts ?e = maxAttempts p"
    "attemptsLeft ?e = attemptsLeft p" "locked ?e = locked p"
    by (simp_all add: enterDigits_fields)
  from assms(3) have "submitPassword ?e = (r, q)" by (simp add: attempt_def)
  with assms(1,2) f show ?thesis
    by (auto simp add: submitPassword_def Let_def failure_def outcome_def split: if_splits)
qed

lemma enterDigit_eval:
  "enterDigit d \<lparr>correctPassword = c, enteredPassword = e, maxAttempts = m,
       attemptsLeft = a, locked = False\<rparr>
   = (if length e < length c
      then ((outcome True)\<lparr>o_progress := Some (of_nat (length (e @ d)) / of_nat (length c))\<rparr>,
            \<lparr>correctPassword = c, enteredPassword = e @ d, maxAttempts = m,
               attemptsLeft = a, locked = False\<rparr>)
      else (failure msg_password_full,
            \<lparr>correctPassword = c, enteredPassword = e, maxAttempts = m,
               attemptsLeft = a, locked = False\<rparr>))"
  by (simp add: enterDigit_def Let_def)

text \<open>
  Claim C4. Starting from a fresh lock (three attempts) with any expected code \<open>c\<close>:
  an attempt (any sequence of \<open>enterDigit\<close> calls, then \<open>submitPassword\<close>) whose entered
  code differs from \<open>c\<close> fails, takes exactly one from the attempts left (3 to 2, 2 to 1,
  1 to 0) and clears the entered digits. The third such attempt in a row locks the lock and
  its outcome carries \<open>locked: true\<close>. From then on every \<open>enterDigit\<close> and
  \<open>submitPassword\<close> call, in any number and order, returns the locked failure and
  changes nothing, until \<open>reset\<close>, which gives back the fresh lock.
\<close>

theorem three_wrong_submissions_lock:
  assumes a1: "attempt ds1 (PasswordSystem_new c) = (r1, q1)"
    and a2: "attempt ds2 q1 = (r2, q2)"
    and a3: "attempt ds3 q2 = (r3, q3)"
    and m1: "enteredPassword (enterDigits ds1 (PasswordSystem_new c)) \<noteq> c"
    and m2: "enteredPassword (enterDigits ds2 q1) \<noteq> c"
    and m3: "enteredPassword (enterDigits ds3 q2) \<noteq> c"
    and ops: "Reset \<notin> set ops"
  shows "(\<not> o_success r1 \<and> attemptsLeft q1 = 2 \<and> enteredPassword q1 = [] \<and> \<not> locked q1) \<and>
         (\<not> o_success r2 \<and> attemptsLeft q2 = 1 \<and> enteredPassword q2 = [] \<and> \<not> locked q2) \<and>
         (\<not> o_success r3 \<and> o_locked r3 = Some True \<and> attemptsLeft q3 = 0 \<and>
          enteredPassword q3 = [] \<and> locked q3) \<and>
         lockRun ops q3 = (map (\<lambda>_. Some (failure msg_lock_locked)) ops, q3) \<and>
         \<not> locked (reset q3) \<and> reset q3 = PasswordSystem_new c"
proof -
  let ?p0 = "PasswordSystem_new c"
  have p0: "\<not> locked ?p0" "correctPassword ?p0 = c" "attemptsLeft ?p0 = 3" "maxAttempts ?p0 = 3"
    by (simp_all add: PasswordSystem_new_def)
  from attempt_mismatch [OF p0(1) _ a1] m1 p0
  have s1: "\<not> o_success r1" "enteredPassword q1 = []" "attemptsLeft q1 = 2"
    "correctPassword q1 = c" "maxAttempts q1 = 3" "\<not> locked q1"
    by simp_all
  from attempt_mismatch [OF s1(6) _ a2] m2 s1
  have s2: "\<not> o_success r2" "enteredPassword q2 = []" "attemptsLeft q2 = 1"
    "correctPassword q2 = c" "maxAttempts q2 = 3" "\<not> locked q2"
    by simp_all
  from attempt_mismatch [OF s2(6) _ a3] m3 s2
  have s3: "\<not> o_success r3" "enteredPassword q3 = []" "attemptsLeft q3 = 0"
    "correctPassword q3 = c" "maxAttempts q3 = 3" "locked q3" "o_locked r3 = Some True"
    by simp_all
  have r: "reset q3 = ?p0"
    using s3 by (simp add: reset_def PasswordSystem_new_def)
  have l: "lockRun ops q3 = (map (\<lambda>_. Some (failure msg_lock_locked)) ops, q3)"
    by (rule lockRun_locked [OF s3(6) ops])
  show ?thesis using s1 s2 s3 r l p0 by simp
qed

text \<open>
  The theorem at the code 9427: the digits 1, 2, 3, 4 and a submission, a submission with
  nothing entered, the digits 9, 4, 2 and a submission; then a digit and a submission
  against the locked lock.
\<close>

theorem three_wrong_submissions_lock_witness:
  "enteredPassword (enterDigits [js ''1'', js ''2'', js ''3'', js ''4'']
       (PasswordSystem_new (js ''9427''))) \<noteq> js ''9427'' \<and>
   enteredPassword (enterDigits [] ((PasswordSystem_new (js ''9427''))\<lparr>attemptsLeft := 2\<rparr>))
     \<noteq> js ''9427'' \<and>
   enteredPassword (enterDigits [js ''9'', js ''4'', js ''2'']
       ((PasswordSystem_new (js ''9427''))\<lparr>attemptsLeft := 1\<rparr>)) \<noteq> js ''9427'' \<and>
   snd (attempt [js ''9'', js ''4'', js ''2'']
       ((PasswordSystem_new (js ''9427''))\<lparr>attemptsLeft := 1\<rparr>))
     = (PasswordSystem_new (js ''9427''))\<lparr>attemptsLeft := 0, locked := True\<rparr> \<and>
   lockRun [EnterDigit (js ''9''), Submit]
       ((PasswordSystem_new (js ''9427''))\<lparr>attemptsLeft := 0, locked := True\<rparr>)
     = ([Some (failure msg_lock_locked), Some (failure msg_lock_locked)],
        (PasswordSystem_new (js ''9427''))\<lparr>attemptsLeft := 0, locked := True\<rparr>)"
proof -
  let ?c = "js ''9427''"
  let ?p0 = "PasswordSystem_new ?c"
  let ?ds1 = "[js ''1'', js ''2'', js ''3'', js ''4'']"
  let ?ds3 = "[js ''9'', js ''4'', js ''2'']"
  let ?q1 = "?p0\<lparr>attemptsLeft := 2\<rparr>"
  let ?q2 = "?p0\<lparr>attemptsLeft := 1\<rparr>"
  let ?q3 = "?p0\<lparr>attemptsLeft := 0, locked := True\<rparr>"
  note ev = attempt_def enterDigits_Cons PasswordSystem_new_def enterDigit_eval
    submitPassword_def Let_def
  have m1: "enteredPassword (enterDigits ?ds1 ?p0) \<noteq> ?c" by (simp add: ev)
  have m2: "enteredPassword (enterDigits [] ?q1) \<noteq> ?c" by (simp add: ev)
  have m3: "enteredPassword (enterDigits ?ds3 ?q2) \<noteq> ?c" by (simp add: ev)
  have q1: "snd (attempt ?ds1 ?p0) = ?q1" by (simp add: ev)
  have q2: "snd (attempt [] ?q1) = ?q2" by (simp add: ev)
  have q3: "snd (attempt ?ds3 ?q2) = ?q3" by (simp add: ev)
  have a1: "attempt ?ds1 ?p0 = (fst (attempt ?ds1 ?p0), ?q1)"
    by (simp add: q1 [symmetric])
  have a2: "attempt [] ?q1 = (fst (attempt [] ?q1), ?q2)"
    by (simp add: q2 [symmetric])
  have a3: "attempt ?ds3 ?q2 = (fst (attempt ?ds3 ?q2), ?q3)"
    by (simp add: q3 [symmetric])
  have o: "Reset \<notin> set [EnterDigit (js ''9''), Submit]" by simp
  from three_wrong_submissions_lock [OF a1 a2 a3 m1 m2 m3 o] m1 m2 m3 q3
  show ?thesis by simp
qed

section \<open>The entered code never outgrows the expected code\<close>

lemma lockInv_new: "lockInv c (PasswordSystem_new c)"
  by (simp add: lockInv_def PasswordSystem_new_def)

lemma lockInv_lockOp:
  assumes "lockInv c p" and "singleDigit op"
  shows "lockInv c (snd (lockOp op p))"
proof (cases op)
  case (EnterDigit d)
  with assms show ?thesis
    by (auto simp add: lockInv_def enterDigit_def Let_def)
next
  case Submit
  with assms show ?thesis
    by (auto simp add: lockInv_def submitPassword_def reset_def Let_def)
next
  case Reset
  with assms show ?thesis
    by (auto simp add: lockInv_def reset_def)
qed

lemma snd_lockRun_Cons:
  "snd (lockRun (op # ops) p) = snd (lockRun ops (snd (lockOp op p)))"
  by (simp split: prod.splits)

lemma lockInv_lockRun:
  "lockInv c p \<Longrightarrow> list_all singleDigit ops \<Longrightarrow> lockInv c (snd (lockRun ops p))"
proof (induction ops arbitrary: p)
  case Nil
  then show ?case by simp
next
  case (Cons op ops)
  from Cons.prems have a: "lockInv c (snd (lockOp op p))" and b: "list_all singleDigit ops"
    by (simp_all add: lockInv_lockOp)
  show ?case unfolding snd_lockRun_Cons by (rule Cons.IH [OF a b])
qed

lemma lockOk_enterDigit: "lockOk p \<Longrightarrow> lockOk (snd (enterDigit d p))"
  by (auto simp add: lockOk_def enterDigit_def Let_def)

lemma lockOk_submitPassword: "lockOk p \<Longrightarrow> lockOk (snd (submitPassword p))"
  by (auto simp add: lockOk_def submitPassword_def reset_def Let_def)

lemma lockOk_reset: "lockOk p \<Longrightarrow> lockOk (reset p)"
  by (simp add: lockOk_def reset_def)

lemma lockOk_lockOp:
  assumes "lockOk p"
  shows "lockOk (snd (lockOp op p)) \<and> correctPassword (snd (lockOp op p)) = correctPassword p"
proof (cases op)
  case (EnterDigit d)
  with lockOk_enterDigit [OF assms, of d] show ?thesis
    by (simp add: case_prod_unfold enterDigit_fields)
next
  case Submit
  with lockOk_submitPassword [OF assms] show ?thesis
    by (simp add: case_prod_unfold) (simp add: submitPassword_def reset_def Let_def)
next
  case Reset
  with lockOk_reset [OF assms] show ?thesis
    by (simp add: reset_def)
qed

lemma lockOk_lockRun:
  "lockOk p \<Longrightarrow>
   lockOk (snd (lockRun ops p)) \<and> correctPassword (snd (lockRun ops p)) = correctPassword p"
proof (induction ops arbitrary: p)
  case Nil
  then show ?case by simp
next
  case (Cons op ops)
  from lockOk_lockOp [OF Cons.prems, of op]
  have a: "lockOk (snd (lockOp op p))"
    and b: "correctPassword (snd (lockOp op p)) = correctPassword p" by simp_all
  from Cons.IH [OF a] b show ?case unfolding snd_lockRun_Cons by simp
qed

lemma lockOk_PasswordSystem_new: "lockOk (PasswordSystem_new c)"
  by (simp add: lockOk_def PasswordSystem_new_def)

lemma enterDigit_at_full_length:
  assumes "lockOk p" and "length (correctPassword p) \<le> length (enteredPassword p)"
  shows "enterDigit d p = (failure msg_password_full, p)"
proof -
  from assms have "\<not> locked p" by (auto simp add: lockOk_def)
  with assms(2) show ?thesis by (simp add: enterDigit_def)
qed

text \<open>
  Claim C7 says that every lock operation keeps the entered string no longer than the
  expected code. \<open>enterDigit\<close> checks the length before it appends and does not look at
  its argument: with 9, 4, 2 entered against the code 9427 the bound holds, and a further
  \<open>enterDigit\<close> with the string "27", or with the key emoji (one character, two code
  units), leaves five code units entered against an expected four.
\<close>

theorem long_digit_exceeds_expected:
  "length (enteredPassword (snd (lockRun
       [EnterDigit (js ''9''), EnterDigit (js ''4''), EnterDigit (js ''2'')]
       (PasswordSystem_new (js ''9427'')))))
     \<le> length (correctPassword (snd (lockRun
       [EnterDigit (js ''9''), EnterDigit (js ''4''), EnterDigit (js ''2'')]
       (PasswordSystem_new (js ''9427''))))) \<and>
   \<not> length (enteredPassword (snd (lockRun
       [EnterDigit (js ''9''), EnterDigit (js ''4''), EnterDigit (js ''2''), EnterDigit (js ''27'')]
       (PasswordSystem_new (js ''9427'')))))
     \<le> length (correctPassword (snd (lockRun
       [EnterDigit (js ''9''), EnterDigit (js ''4''), EnterDigit (js ''2''), EnterDigit (js ''27'')]
       (PasswordSystem_new (js ''9427''))))) \<and>
   \<not> length (enteredPassword (snd (lockRun
       [EnterDigit (js ''9''), EnterDigit (js ''4''), EnterDigit (js ''2''), EnterDigit key_icon]
       (PasswordSystem_new (js ''9427'')))))
     \<le> length (correctPassword (snd (lockRun
       [EnterDigit (js ''9''), EnterDigit (js ''4''), EnterDigit (js ''2''), EnterDigit key_icon]
       (PasswordSystem_new (js ''9427'')))))"
  by (simp add: PasswordSystem_new_def enterDigit_eval key_icon_def)

text \<open>
  Claim C7, amended. After any sequence of lock calls (\<open>enterDigit\<close>,
  \<open>submitPassword\<close>, \<open>reset\<close>) on a fresh lock with any expected code \<open>c\<close>: when
  every \<open>enterDigit\<close> argument was a string of at most one code unit, the entered string
  is no longer than \<open>c\<close>; and, whatever the arguments were, when the entered string is at
  least as long as \<open>c\<close> (a fifth digit against a four-digit code) a further
  \<open>enterDigit\<close> returns the "full" failure and leaves the lock, so also the entered
  string, as it was.
\<close>

theorem entered_never_exceeds_expected:
  "correctPassword (snd (lockRun ops (PasswordSystem_new c))) = c \<and>
   (list_all singleDigit ops \<longrightarrow>
      length (enteredPassword (snd (lockRun ops (PasswordSystem_new c))))
        \<le> length (correctPassword (snd (lockRun ops (PasswordSystem_new c))))) \<and>
   (length c \<le> length (enteredPassword (snd (lockRun ops (PasswordSystem_new c)))) \<longrightarrow>
      enterDigit d (snd (lockRun ops (PasswordSystem_new c)))
        = (failure msg_password_full, snd (lockRun ops (PasswordSystem_new c))))"
proof -
  let ?p = "snd (lockRun ops (PasswordSystem_new c))"
  from lockOk_lockRun [OF lockOk_PasswordSystem_new, of ops c]
  have k: "lockOk ?p" and c: "correctPassword ?p = c"
    by (simp_all add: PasswordSystem_new_def)
  have b: "length (enteredPassword ?p) \<le> length (correctPassword ?p)"
    if "list_all singleDigit ops"
    using lockInv_lockRun [OF lockInv_new that, of c] by (simp add: lockInv_def)
  have f: "enterDigit d ?p = (failure msg_password_full, ?p)"
    if "length c \<le> length (enteredPassword ?p)"
    using enterDigit_at_full_length [OF k] that c by simp
  from c b f show ?thesis by blast
qed

text \<open>
  The theorem at the code 9427 with the digits 9, 4, 2, 7 entered: a fifth digit is
  rejected.
\<close>

theorem entered_never_exceeds_expected_witness:
  "list_all singleDigit [EnterDigit (js ''9''), EnterDigit (js ''4''), EnterDigit (js ''2''), EnterDigit (js ''7'')] \<and>
   snd (lockRun [EnterDigit (js ''9''), EnterDigit (js ''4''), EnterDigit (js ''2''), EnterDigit (js ''7'')]
          (PasswordSystem_new (js ''9427'')))
     = (PasswordSystem_new (js ''9427''))\<lparr>enteredPassword := js ''9427''\<rparr> \<and>
   length (enteredPassword ((PasswordSystem_new (js ''9427''))\<lparr>enteredPassword := js ''9427''\<rparr>))
     \<le> length (js ''9427'') \<and>
   enterDigit (js ''5'') ((PasswordSystem_new (js ''9427''))\<lparr>enteredPassword := js ''9427''\<rparr>)
     = (failure msg_password_full, (PasswordSystem_new (js ''9427''))\<lparr>enteredPassword := js ''9427''\<rparr>)"
proof -
  let ?ops = "[EnterDigit (js ''9''), EnterDigit (js ''4''), EnterDigit (js ''2''), EnterDigit (js ''7'')]"
  have h: "list_all singleDigit ?ops" by simp
  have r: "snd (lockRun ?ops (PasswordSystem_new (js ''9427'')))
     = (PasswordSystem_new (js ''9427''))\<lparr>enteredPassword := js ''9427''\<rparr>"
    by (simp add: PasswordSystem_new_def enterDigit_eval)
  from entered_never_exceeds_expected [of ?ops "js ''9427''" "js ''5''"] h r
  show ?thesis by simp
qed

section \<open>The display\<close>

text \<open>
  Claim C9. \<open>getPasswordDisplay\<close> is one asterisk (code unit 0x2A) for each code unit
  of the entered string and nothing else; two systems whose entered strings have the same
  length display the same string, whatever was entered and whatever the expected codes are.
\<close>

theorem display_reveals_only_length:
  assumes "length (enteredPassword (passwordSystem s)) = length (enteredPassword (passwordSystem t))"
  shows "getPasswordDisplay s = replicate (length (enteredPassword (passwordSystem s))) 0x2A \<and>
         getPasswordDisplay s = getPasswordDisplay t"
  using assms by (simp add: getPasswordDisplay_def getDisplay_def)

text \<open>
  The theorem at two fresh systems, one with the digit 1 entered and one with the digit 9.
\<close>

theorem display_reveals_only_length_witness:
  "length (enteredPassword (passwordSystem (snd (enterPasswordDigit (js ''1'') ClueSystem_new))))
     = length (enteredPassword (passwordSystem (snd (enterPasswordDigit (js ''9'') ClueSystem_new)))) \<and>
   enteredPassword (passwordSystem (snd (enterPasswordDigit (js ''1'') ClueSystem_new)))
     \<noteq> enteredPassword (passwordSystem (snd (enterPasswordDigit (js ''9'') ClueSystem_new))) \<and>
   getPasswordDisplay (snd (enterPasswordDigit (js ''1'') ClueSystem_new)) = [0x2A] \<and>
   getPasswordDisplay (snd (enterPasswordDigit (js ''1'') ClueSystem_new))
     = getPasswordDisplay (snd (enterPasswordDigit (js ''9'') ClueSystem_new))"
proof -
  let ?s = "snd (enterPasswordDigit (js ''1'') ClueSystem_new)"
  let ?t = "snd (enterPasswordDigit (js ''9'') ClueSystem_new)"
  have p: "passwordSystem ClueSystem_new = PasswordSystem_new (js ''9427'')"
    by (simp add: ClueSystem_new_def initGameData_def initInteractions_def)
  have s: "enteredPassword (passwordSystem ?s) = js ''1''"
    by (simp add: enterPasswordDigit_def p) (simp add: PasswordSystem_new_def enterDigit_eval)
  have t: "enteredPassword (passwordSystem ?t) = js ''9''"
    by (simp add: enterPasswordDigit_def p) (simp add: PasswordSystem_new_def enterDigit_eval)
  have h: "length (enteredPassword (passwordSystem ?s)) = length (enteredPassword (passwordSystem ?t))"
    by (simp add: s t)
  note d = display_reveals_only_length [OF h]
  from d s have d1: "getPasswordDisplay ?s = [0x2A]" by simp
  from d have d2: "getPasswordDisplay ?s = getPasswordDisplay ?t" by (rule conjunct2)
  from h s t d1 d2 show ?thesis by simp
qed

section \<open>The inventory\<close>

text \<open>
  Claim C10. With a free slot and an item already stored under the identifier of the new
  item, \<open>addItem\<close> returns \<open>false\<close> exactly when the stored item is collectable and
  not consumable, and then changes nothing. When the stored item is consumable,
  \<open>addItem\<close> returns \<open>true\<close>, the new item is stored under the identifier in place of
  the old one, every other entry and the order of the keys are as before, and the count is
  unchanged.
\<close>

theorem addItem_duplicate:
  assumes "int (length (items this)) < maxSlots this"
    and "getItem this (item_id item) = Some existingItem"
  shows "(fst (addItem item this) = False \<longleftrightarrow> canCollect existingItem \<and> \<not> consumable existingItem) \<and>
         (canCollect existingItem \<and> \<not> consumable existingItem \<longrightarrow> snd (addItem item this) = this) \<and>
         (consumable existingItem \<longrightarrow>
            fst (addItem item this) = True \<and>
            getItem (snd (addItem item this)) (item_id item) = Some item \<and>
            (\<forall>k. k \<noteq> item_id item \<longrightarrow> getItem (snd (addItem item this)) k = getItem this k) \<and>
            map fst (items (snd (addItem item this))) = map fst (items this) \<and>
            getItemCount (snd (addItem item this)) = getItemCount this)"
proof -
  from assms(2) have k: "item_id item \<in> fst ` set (items this)"
    by (simp add: getItem_def map_of_eq_Some_iff weak_map_of_SomeI image_iff) (metis map_of_SomeD fst_conv)
  then have m: "map fst (AList.update (item_id item) item (items this)) = map fst (items this)"
    by (simp add: update_keys)
  have "length (map fst (AList.update (item_id item) item (items this)))
          = length (map fst (items this))"
    by (simp only: m)
  then have l: "length (AList.update (item_id item) item (items this)) = length (items this)"
    by simp
  from assms l m show ?thesis
    by (auto simp add: addItem_def hasItem_def getItem_def getItemCount_def update_conv')
qed

text \<open>
  The theorem at an inventory that holds the small key, which is consumable: adding a
  small key with no uses left replaces the stored one.
\<close>

theorem addItem_duplicate_witness:
  "int (length (items (Inventory_new\<lparr>items := [(js ''small_key'', smallKey)]\<rparr>)))
     < maxSlots (Inventory_new\<lparr>items := [(js ''small_key'', smallKey)]\<rparr>) \<and>
   getItem (Inventory_new\<lparr>items := [(js ''small_key'', smallKey)]\<rparr>)
       (item_id (smallKey\<lparr>usesLeft := 0\<rparr>)) = Some smallKey \<and>
   consumable smallKey \<and>
   addItem (smallKey\<lparr>usesLeft := 0\<rparr>) (Inventory_new\<lparr>items := [(js ''small_key'', smallKey)]\<rparr>)
     = (True, Inventory_new\<lparr>items := [(js ''small_key'', smallKey\<lparr>usesLeft := 0\<rparr>)]\<rparr>)"
proof -
  let ?inv = "Inventory_new\<lparr>items := [(js ''small_key'', smallKey)]\<rparr>"
  let ?new = "smallKey\<lparr>usesLeft := 0\<rparr>"
  have s: "int (length (items ?inv)) < maxSlots ?inv"
    by (simp add: Inventory_new_def)
  have g: "getItem ?inv (item_id ?new) = Some smallKey"
    by (simp add: getItem_def smallKey_def Item_new_def)
  have c: "consumable smallKey"
    by (simp add: smallKey_def)
  have r: "addItem ?new ?inv = (True, Inventory_new\<lparr>items := [(js ''small_key'', ?new)]\<rparr>)"
    by (simp add: addItem_def hasItem_def getItem_def smallKey_def Item_new_def Inventory_new_def)
  from addItem_duplicate [OF s g] s g c r show ?thesis
    by simp
qed

section \<open>Evaluating the reference content\<close>

lemmas content_defs = ClueSystem_new_def initGameData_def initInteractions_def addInteractionTo_def
  initSceneObjects_def initItems_def SceneObject_new_def addInteraction_def
  trashInteraction_def plantInteraction_def drawerInteraction_def safeInteraction_def
  doorInteraction_def Interaction_new_def Inventory_new_def GameState_new_def
  PasswordSystem_new_def Item_new_def

lemmas engine_defs = interact_def canExecute_def hasItem_def getItem_def addItem_def
  removeItem_def clone_def markExecuted_def gs_set_def gs_get_def setFlag_def hasFlag_def
  clear_def cs_hasItem_def enterPasswordDigit_def cs_submitPassword_def enterDigit_def
  submitPassword_def reset_def outcome_def failure_def Let_def

section \<open>Interactions\<close>

text \<open>
  Claim C8. For an identifier that is not a key of the scene objects, \<open>interact\<close>
  returns the failure outcome "error: the object does not exist" (\<open>success\<close> false),
  as a value, and the whole system, so also the inventory, the game state and the lock, is
  unchanged. (The log sink of the source is outside the model.)
\<close>

theorem interact_unknown_object:
  assumes "map_of (sceneObjects this) objectId = None"
  shows "interact objectId this = (failure msg_no_object, this) \<and>
         \<not> o_success (fst (interact objectId this)) \<and>
         inventory (snd (interact objectId this)) = inventory this \<and>
         gameState (snd (interact objectId this)) = gameState this \<and>
         passwordSystem (snd (interact objectId this)) = passwordSystem this"
  using assms by (simp add: interact_def failure_def outcome_def)


lemma sceneObjects_new:
  "map fst (sceneObjects ClueSystem_new)
     = [js ''trash_bin'', js ''plant'', js ''desk_drawer'', js ''safe'', js ''door'']"
  by (simp add: ClueSystem_new_def initGameData_def initInteractions_def addInteractionTo_def
      initSceneObjects_def)

theorem interact_unknown_object_witness:
  "map_of (sceneObjects ClueSystem_new) (js ''window'') = None \<and>
   interact (js ''window'') ClueSystem_new = (failure msg_no_object, ClueSystem_new)"
proof -
  have "js ''window'' \<notin> set (map fst (sceneObjects ClueSystem_new))"
    by (simp only: sceneObjects_new) simp
  then have h: "map_of (sceneObjects ClueSystem_new) (js ''window'') = None"
    by (simp add: map_of_eq_None_iff)
  from interact_unknown_object [OF h] h show ?thesis by simp
qed

text \<open>
  Claim C5. In a fresh run whose inventory has been cleared, \<open>interact\<close> on the desk
  drawer returns the failure outcome of type \<open>requirement_missing\<close> whose message is
  the text U+274C (cross mark), space, U+9700 U+8981 U+5C0F U+94A5 U+5319 ("the small key
  is needed"), with the hint of the drawer; the system, so also the inventory, is unchanged.
\<close>

theorem drawer_without_key:
  "interact (js ''desk_drawer'') (ClueSystem_new\<lparr>inventory := clear (inventory ClueSystem_new)\<rparr>)
     = ((outcome False)\<lparr>o_type := Some (js ''requirement_missing''),
          o_message := Some [0x274C, 0x20, 0x9700, 0x8981, 0x5C0F, 0x94A5, 0x5319],
          o_hint := Some drawer_failHint\<rparr>,
        ClueSystem_new\<lparr>inventory := clear (inventory ClueSystem_new)\<rparr>)"
  by (simp add: content_defs engine_defs drawer_failMessage_def)

text \<open>
  Claim C3 says that in a fresh run granted the small key, \<open>interact\<close> on the desk
  drawer returns an outcome of type \<open>item_received\<close> carrying the diary. The code
  consumes the key and grants the diary, but what it returns is the literal
  \<open>{ success: true, message: "operation completed" }\<close> of \<open>executeActions\<close>, which
  has neither a type nor an item.
\<close>

theorem drawer_with_key_generic_outcome:
  "cs_hasItem withSmallKey (js ''small_key'') \<and>
   fst (interact (js ''desk_drawer'') withSmallKey) = (outcome True)\<lparr>o_message := Some msg_done\<rparr> \<and>
   o_type (fst (interact (js ''desk_drawer'') withSmallKey)) \<noteq> Some (js ''item_received'') \<and>
   o_item (fst (interact (js ''desk_drawer'') withSmallKey)) = None \<and>
   \<not> cs_hasItem (snd (interact (js ''desk_drawer'') withSmallKey)) (js ''small_key'') \<and>
   cs_hasItem (snd (interact (js ''desk_drawer'') withSmallKey)) (js ''diary'')"
  by (simp add: withSmallKey_def content_defs engine_defs)

subsection \<open>What an action leaves alone\<close>

lemma executeAction_frame:
  "sceneObjects (snd (executeAction a s)) = sceneObjects s \<and>
   cs_items (snd (executeAction a s)) = cs_items s \<and>
   passwordSystem (snd (executeAction a s)) = passwordSystem s"
  by (cases a) (auto simp add: addItem_def removeItem_def split: option.splits prod.splits bool.splits)

lemma executeActions_frame:
  "sceneObjects (snd (executeActions as s)) = sceneObjects s \<and>
   cs_items (snd (executeActions as s)) = cs_items s \<and>
   passwordSystem (snd (executeActions as s)) = passwordSystem s"
proof (induction as arbitrary: s)
  case Nil
  then show ?case by simp
next
  case (Cons a as)
  obtain r s' where e: "executeAction a s = (r, s')" by (cases "executeAction a s")
  from executeAction_frame [of a s] e
  have f: "sceneObjects s' = sceneObjects s" "cs_items s' = cs_items s"
    "passwordSystem s' = passwordSystem s" by simp_all
  show ?case
  proof (cases "o_success r")
    case True
    with e Cons.IH [of s'] f show ?thesis by simp
  next
    case False
    with e f show ?thesis by simp
  qed
qed

lemma executeActions_success:
  "o_success (fst (executeActions as s)) \<longleftrightarrow> list_all o_success (actionOutcomes as s)"
proof (induction as arbitrary: s)
  case Nil
  then show ?case by (simp add: outcome_def)
next
  case (Cons a as)
  obtain r s' where e: "executeAction a s = (r, s')" by (cases "executeAction a s")
  with Cons.IH [of s'] show ?case by simp
qed

lemma length_actionOutcomes:
  "list_all o_success (actionOutcomes as s) \<Longrightarrow> length (actionOutcomes as s) = length as"
proof (induction as arbitrary: s)
  case Nil
  then show ?case by simp
next
  case (Cons a as)
  obtain r s' where e: "executeAction a s = (r, s')" by (cases "executeAction a s")
  with Cons show ?case by (simp split: if_splits)
qed

text \<open>
  Claim C1 says that \<open>interact\<close> returns the outcome of the last executed action and
  not a generic success record. With the golden key held (the input of the source's test
  \<open>testCorrectPasswordOpenDoor\<close>), the conditions of the door hold and its three
  actions all succeed, the last of them with the outcome of type \<open>state_set\<close>;
  \<open>interact\<close> returns the literal \<open>{ success: true, message: "operation completed" }\<close>
  of \<open>executeActions\<close>, which carries the outcome of no action.
\<close>

theorem door_outcome_not_last_action:
  "map_option interactions (map_of (sceneObjects withGoldenKey) (js ''door'')) = Some [doorInteraction] \<and>
   canExecute doorInteraction (inventory withGoldenKey) (gameState withGoldenKey) \<and>
   actionOutcomes (actions doorInteraction) withGoldenKey
     = [(outcome True)\<lparr>o_type := Some (js ''requirement_met'')\<rparr>,
        (outcome True)\<lparr>o_type := Some (js ''show_message''), o_title := Some door_title,
           o_message := Some door_message, o_hint := Some door_hint\<rparr>,
        (outcome True)\<lparr>o_type := Some (js ''state_set'')\<rparr>] \<and>
   fst (interact (js ''door'') withGoldenKey) = (outcome True)\<lparr>o_message := Some msg_done\<rparr> \<and>
   fst (interact (js ''door'') withGoldenKey)
     \<noteq> last (actionOutcomes (actions doorInteraction) withGoldenKey)"
  by (simp add: withGoldenKey_def content_defs engine_defs)

text \<open>
  This is so for every interaction, not only at the door: when all the actions succeed,
  \<open>executeActions\<close> has applied each of them in order and returns the generic literal,
  and \<open>interact\<close> hands that literal on after setting \<open>executed\<close>.
\<close>

lemma executeActions_all_succeed:
  "list_all o_success (actionOutcomes as s) \<Longrightarrow>
   executeActions as s
     = ((outcome True)\<lparr>o_message := Some msg_done\<rparr>,
        fold (\<lambda>action this. snd (executeAction action this)) as s)"
proof (induction as arbitrary: s)
  case Nil
  then show ?case by simp
next
  case (Cons a as)
  obtain r s' where e: "executeAction a s = (r, s')" by (cases "executeAction a s")
  with Cons.prems have "o_success r" and "list_all o_success (actionOutcomes as s')"
    by (simp_all split: if_splits)
  with Cons.IH [of s'] e show ?case by simp
qed

lemma interact_all_succeed:
  assumes o: "map_of (sceneObjects this) objectId = Some object"
    and i: "interactions object = interaction # rest"
    and c: "canExecute interaction (inventory this) (gameState this)"
    and a: "list_all o_success (actionOutcomes (actions interaction) this)"
  shows "interact objectId this
           = ((outcome True)\<lparr>o_message := Some msg_done\<rparr>,
              markExecuted objectId
                (fold (\<lambda>action this. snd (executeAction action this)) (actions interaction) this))"
  using o i c executeActions_all_succeed [OF a]
  by (simp add: interact_def outcome_def)

subsection \<open>Invariants of a run\<close>

lemma interact_passwordSystem: "passwordSystem (snd (interact objectId s)) = passwordSystem s"
proof -
  have m: "passwordSystem (markExecuted objectId t) = passwordSystem t" for t
    by (simp add: markExecuted_def split: option.splits list.splits)
  show ?thesis
    by (simp add: interact_def m executeActions_frame case_prod_unfold
        split: option.splits list.splits)
qed

lemma lockOk_call: "lockOk (passwordSystem s) \<Longrightarrow> lockOk (passwordSystem (snd (call c s)))"
proof (cases c)
  case (Interact objectId)
  assume "lockOk (passwordSystem s)"
  with Interact show ?thesis by (simp add: interact_passwordSystem)
next
  case (EnterPasswordDigit d)
  assume "lockOk (passwordSystem s)"
  from lockOk_enterDigit [OF this, of d] EnterPasswordDigit show ?thesis
    by (simp add: enterPasswordDigit_def case_prod_unfold)
next
  case SubmitPassword
  assume "lockOk (passwordSystem s)"
  from lockOk_submitPassword [OF this] SubmitPassword show ?thesis
    by (simp add: cs_submitPassword_def case_prod_unfold)
qed

lemma lockOk_calls: "lockOk (passwordSystem s) \<Longrightarrow> lockOk (passwordSystem (calls cs s))"
  by (induction cs arbitrary: s) (simp_all add: lockOk_call)

lemma lockOk_new: "lockOk (passwordSystem ClueSystem_new)"
  by (simp add: lockOk_def content_defs)

lemma submit_correct:
  assumes "lockOk (passwordSystem this)"
    and "enteredPassword (passwordSystem this) = correctPassword (passwordSystem this)"
  shows "cs_submitPassword this =
           ((outcome True)\<lparr>o_message := Some msg_password_correct\<rparr>,
            this\<lparr>passwordSystem := reset (passwordSystem this),
                 gameState := gs_set (js ''safePasswordKnown'') True
                                (setFlag (js ''safeOpened'') True (gameState this))\<rparr>)"
proof -
  from assms have "\<not> locked (passwordSystem this)" by (auto simp add: lockOk_def)
  with assms(2) show ?thesis
    by (simp add: cs_submitPassword_def submitPassword_def outcome_def)
qed

lemma hasFlag_setFlag: "hasFlag (setFlag f True g) f"
  by (simp add: hasFlag_def setFlag_def update_conv')

lemma gs_get_gs_set: "gs_get (gs_set k True g) k"
  by (simp add: gs_get_def gs_set_def update_conv')

text \<open>
  Claim C2 says that a successful \<open>submitPassword\<close> runs the nested success actions of
  \<open>check_password\<close>, so that the golden key is held afterwards. In the run where the
  player looks at the safe and enters 9, 4, 2, 7, the entered code is the expected one and
  \<open>submitPassword\<close> succeeds, but the inventory is empty afterwards: the source never
  reads \<open>successActions\<close>.
\<close>

theorem safe_code_grants_nothing:
  "enteredPassword (passwordSystem safeCodeEntered) = correctPassword (passwordSystem safeCodeEntered) \<and>
   o_success (fst (cs_submitPassword safeCodeEntered)) \<and>
   \<not> cs_hasItem (snd (cs_submitPassword safeCodeEntered)) (js ''golden_key'') \<and>
   getInventory (snd (cs_submitPassword safeCodeEntered)) = []"
  by (simp add: safeCodeEntered_def content_defs engine_defs getInventory_def getAllItems_def)

text \<open>
  What a successful \<open>submitPassword\<close> does, in the state reached by any sequence of
  calls on a fresh system: it resets the lock and sets the flag \<open>safeOpened\<close> and the
  state \<open>safePasswordKnown\<close>; the inventory is not touched.
\<close>

lemma submit_correct_code_effects:
  assumes "this = calls cs ClueSystem_new"
    and "enteredPassword (passwordSystem this) = correctPassword (passwordSystem this)"
  shows "fst (cs_submitPassword this) = (outcome True)\<lparr>o_message := Some msg_password_correct\<rparr> \<and>
         o_success (fst (cs_submitPassword this)) \<and>
         passwordSystem (snd (cs_submitPassword this)) = reset (passwordSystem this) \<and>
         hasFlag (gameState (snd (cs_submitPassword this))) (js ''safeOpened'') \<and>
         gs_get (gameState (snd (cs_submitPassword this))) (js ''safePasswordKnown'') \<and>
         inventory (snd (cs_submitPassword this)) = inventory this \<and>
         sceneObjects (snd (cs_submitPassword this)) = sceneObjects this \<and>
         (cs_hasItem (snd (cs_submitPassword this)) (js ''golden_key'')
            \<longleftrightarrow> cs_hasItem this (js ''golden_key''))"
proof -
  have "lockOk (passwordSystem this)"
    unfolding assms(1) by (rule lockOk_calls [OF lockOk_new])
  from submit_correct [OF this assms(2)] show ?thesis
    by (simp add: cs_hasItem_def hasFlag_def setFlag_def gs_get_def gs_set_def update_conv' outcome_def)
qed

subsection \<open>Granting a held item\<close>

lemma catalogued_held:
  assumes "catalogued this" and "hasItem (inventory this) i"
  shows "\<exists>item. map_of (cs_items this) i = Some item \<and> item_id item = i"
proof -
  from assms(2) obtain x where "map_of (items (inventory this)) i = Some x"
    by (auto simp add: hasItem_def)
  then have "(i, x) \<in> set (items (inventory this))" by (rule map_of_SomeD)
  with assms(1) have "map_of (cs_items this) i \<noteq> None"
    by (auto simp add: catalogued_def list_all_iff)
  then obtain item where m: "map_of (cs_items this) i = Some item" by auto
  then have "(i, item) \<in> set (cs_items this)" by (rule map_of_SomeD)
  with assms(1) have "item_id item = i"
    by (auto simp add: catalogued_def list_all_iff)
  with m show ?thesis by simp
qed

lemma give_held:
  assumes "catalogued this" and "hasItem (inventory this) i"
  shows "\<exists>item. map_of (cs_items this) i = Some item \<and> item_id item = i \<and>
           executeAction (GiveItem i) this
             = ((outcome True)\<lparr>o_type := Some (js ''item_owned''), o_item := Some item\<rparr>, this)"
proof -
  from catalogued_held [OF assms] obtain item
    where m: "map_of (cs_items this) i = Some item" and k: "item_id item = i" by auto
  with assms(2) have "executeAction (GiveItem i) this
      = ((outcome True)\<lparr>o_type := Some (js ''item_owned''), o_item := Some item\<rparr>, this)"
    by simp
  with m k show ?thesis by simp
qed

text \<open>
  Claim C6. When every identifier held in the inventory is one of the catalogue (as it is
  throughout a run, see \<open>catalogued_calls\<close> below), executing \<open>give_item\<close> for a held
  identifier returns the success outcome of type \<open>item_owned\<close> carrying the catalogue
  item, and the system is unchanged: the entries of the inventory and their count are as
  before. Nothing is assumed about the number of free slots, so this holds for a full
  inventory as well.
\<close>

theorem grant_held_item_idempotent:
  assumes "catalogued this" and "hasItem (inventory this) i"
  shows "o_success (fst (executeAction (GiveItem i) this)) \<and>
         o_type (fst (executeAction (GiveItem i) this)) = Some (js ''item_owned'') \<and>
         o_item (fst (executeAction (GiveItem i) this)) = map_of (cs_items this) i \<and>
         snd (executeAction (GiveItem i) this) = this \<and>
         items (inventory (snd (executeAction (GiveItem i) this))) = items (inventory this) \<and>
         getItemCount (inventory (snd (executeAction (GiveItem i) this)))
           = getItemCount (inventory this)"
proof -
  from give_held [OF assms] obtain item
    where m: "map_of (cs_items this) i = Some item"
      and e: "executeAction (GiveItem i) this
             = ((outcome True)\<lparr>o_type := Some (js ''item_owned''), o_item := Some item\<rparr>, this)"
    by auto
  show ?thesis unfolding e by (simp add: m outcome_def)
qed

text \<open>
  The theorem at a full inventory that holds the crumpled paper.
\<close>

theorem grant_held_item_idempotent_witness:
  "catalogued paperInFullInventory \<and>
   hasItem (inventory paperInFullInventory) (js ''crumpled_paper'') \<and>
   int (getItemCount (inventory paperInFullInventory)) \<ge> maxSlots (inventory paperInFullInventory) \<and>
   o_type (fst (executeAction (GiveItem (js ''crumpled_paper'')) paperInFullInventory))
     = Some (js ''item_owned'') \<and>
   snd (executeAction (GiveItem (js ''crumpled_paper'')) paperInFullInventory)
     = paperInFullInventory"
proof -
  have c: "catalogued paperInFullInventory"
    by (simp add: paperInFullInventory_def catalogued_def content_defs engine_defs)
  have h: "hasItem (inventory paperInFullInventory) (js ''crumpled_paper'')"
    by (simp add: paperInFullInventory_def content_defs engine_defs)
  have f: "int (getItemCount (inventory paperInFullInventory))
             \<ge> maxSlots (inventory paperInFullInventory)"
    by (simp add: paperInFullInventory_def getItemCount_def content_defs engine_defs)
  from grant_held_item_idempotent [OF c h] c h f show ?thesis
    by simp
qed

subsection \<open>\<open>catalogued\<close> is an invariant of a run\<close>

lemma set_update_subset: "set (AList.update k v al) \<subseteq> insert (k, v) (set al)"
  by (induction al) auto

lemma set_delete_subset: "set (AList.delete k al) \<subseteq> set al"
  by (auto simp add: AList.delete_eq)

lemma catalogued_inventory:
  assumes "catalogued s" and "cs_items s' = cs_items s"
    and "set (items (inventory s')) \<subseteq> set (items (inventory s)) \<union>
           {(k, v). map_of (cs_items s) k \<noteq> None}"
  shows "catalogued s'"
  using assms by (auto simp add: catalogued_def list_all_iff)

lemma catalogued_executeAction:
  assumes c: "catalogued s"
  shows "catalogued (snd (executeAction a s))"
proof (rule catalogued_inventory [OF c])
  show "cs_items (snd (executeAction a s)) = cs_items s"
    by (simp add: executeAction_frame)
  show "set (items (inventory (snd (executeAction a s))))
          \<subseteq> set (items (inventory s)) \<union> {(k, v). map_of (cs_items s) k \<noteq> None}"
  proof (cases a)
    case (GiveItem p)
    show ?thesis
    proof (cases "map_of (cs_items s) p")
      case None
      with GiveItem show ?thesis by simp
    next
      case (Some item)
      then have "(p, item) \<in> set (cs_items s)" by (rule map_of_SomeD)
      with c have k: "item_id item = p" by (auto simp add: catalogued_def list_all_iff)
      have "set (AList.update p (clone item) (items (inventory s)))
              \<subseteq> insert (p, clone item) (set (items (inventory s)))"
        by (rule set_update_subset)
      with GiveItem Some k show ?thesis
        by (auto simp add: addItem_def clone_def Item_new_def split: if_splits)
    qed
  next
    case (ConsumeItem p)
    with set_delete_subset [of p "items (inventory s)"] show ?thesis
      by (auto simp add: removeItem_def split: if_splits)
  qed simp_all
qed

lemma catalogued_executeActions: "catalogued s \<Longrightarrow> catalogued (snd (executeActions as s))"
proof (induction as arbitrary: s)
  case Nil
  then show ?case by simp
next
  case (Cons a as)
  from catalogued_executeAction [OF Cons.prems, of a] Cons.IH [of "snd (executeAction a s)"]
  show ?case by (simp add: case_prod_unfold)
qed

lemma catalogued_frame:
  "catalogued s \<Longrightarrow> cs_items s' = cs_items s \<Longrightarrow> inventory s' = inventory s \<Longrightarrow> catalogued s'"
  by (simp add: catalogued_def)

lemma catalogued_call: "catalogued s \<Longrightarrow> catalogued (snd (call c s))"
proof (cases c)
  case (Interact objectId)
  assume c: "catalogued s"
  have m: "catalogued (markExecuted objectId t) = catalogued t" for t
    by (simp add: markExecuted_def catalogued_def split: option.splits list.splits)
  from c Interact show ?thesis
    by (simp add: interact_def m catalogued_executeActions case_prod_unfold
        split: option.splits list.splits)
next
  case (EnterPasswordDigit d)
  assume "catalogued s"
  with EnterPasswordDigit show ?thesis
    by (simp add: enterPasswordDigit_def case_prod_unfold catalogued_def)
next
  case SubmitPassword
  assume "catalogued s"
  with SubmitPassword show ?thesis
    by (simp add: cs_submitPassword_def case_prod_unfold catalogued_def)
qed

lemma catalogued_new: "catalogued ClueSystem_new"
  by (simp add: catalogued_def content_defs)

lemma catalogued_calls: "catalogued (calls cs ClueSystem_new)"
proof -
  have "catalogued s \<Longrightarrow> catalogued (calls cs s)" for s
    by (induction cs arbitrary: s) (simp_all add: catalogued_call)
  from this [OF catalogued_new] show ?thesis .
qed

subsection \<open>The golden key is never granted\<close>

text \<open>
  The defect of \<open>submitPassword\<close> is not confined to one run: the only grant of the
  golden key is nested in the payload of \<open>check_password\<close>, which nothing executes, so
  in no sequence of calls on a fresh system is the golden key ever held, and, the door
  requiring it, the game is never complete.
\<close>

lemma executeAction_keeps_keyless:
  assumes c: "catalogued s"
    and h: "\<not> hasItem (inventory s) (js ''golden_key'')"
    and a: "a \<noteq> GiveItem (js ''golden_key'')"
  shows "\<not> hasItem (inventory (snd (executeAction a s))) (js ''golden_key'')"
proof (cases a)
  case (GiveItem p)
  with a have p: "p \<noteq> js ''golden_key''" by simp
  show ?thesis
  proof (cases "map_of (cs_items s) p")
    case None
    with GiveItem h show ?thesis by simp
  next
    case (Some item)
    then have "(p, item) \<in> set (cs_items s)" by (rule map_of_SomeD)
    with c have k: "item_id item = p" by (auto simp add: catalogued_def list_all_iff)
    from GiveItem Some k p h show ?thesis
      by (auto simp add: addItem_def hasItem_def clone_def Item_new_def update_conv'
          split: if_splits)
  qed
next
  case (ConsumeItem p)
  with h show ?thesis
    by (auto simp add: removeItem_def hasItem_def delete_conv' split: if_splits)
qed (use h in simp_all)

lemma executeAction_keeps_incomplete:
  assumes "\<not> gs_get (gameState s) (js ''gameComplete'')" and "\<not> setsComplete a"
  shows "\<not> gs_get (gameState (snd (executeAction a s))) (js ''gameComplete'')"
proof (cases a)
  case (GiveItem p)
  with assms show ?thesis
    by (auto simp add: addItem_def split: option.splits if_splits)
next
  case (ConsumeItem p)
  with assms show ?thesis
    by (auto simp add: removeItem_def split: if_splits)
next
  case (SetState key v)
  with assms show ?thesis
    by (simp add: gs_get_def gs_set_def update_conv')
qed (use assms in simp_all)

lemma executeActions_keyless_inventory:
  assumes "catalogued s" and "\<not> hasItem (inventory s) (js ''golden_key'')"
    and "GiveItem (js ''golden_key'') \<notin> set as"
  shows "\<not> hasItem (inventory (snd (executeActions as s))) (js ''golden_key'')"
  using assms
proof (induction as arbitrary: s)
  case Nil
  then show ?case by simp
next
  case (Cons a as)
  from Cons.prems have a: "a \<noteq> GiveItem (js ''golden_key'')"
    and r: "GiveItem (js ''golden_key'') \<notin> set as" by auto
  from executeAction_keeps_keyless [OF Cons.prems(1,2) a]
  have h: "\<not> hasItem (inventory (snd (executeAction a s))) (js ''golden_key'')" .
  from catalogued_executeAction [OF Cons.prems(1), of a]
  have c: "catalogued (snd (executeAction a s))" .
  from Cons.IH [OF c h r] h show ?case
    by (simp add: case_prod_unfold)
qed

lemma executeActions_incomplete:
  assumes "\<not> gs_get (gameState s) (js ''gameComplete'')"
    and "list_all (\<lambda>action. \<not> setsComplete action) as"
  shows "\<not> gs_get (gameState (snd (executeActions as s))) (js ''gameComplete'')"
  using assms
proof (induction as arbitrary: s)
  case Nil
  then show ?case by simp
next
  case (Cons a as)
  from Cons.prems have a: "\<not> setsComplete a"
    and r: "list_all (\<lambda>action. \<not> setsComplete action) as" by simp_all
  from executeAction_keeps_incomplete [OF Cons.prems(1) a]
  have g: "\<not> gs_get (gameState (snd (executeAction a s))) (js ''gameComplete'')" .
  from Cons.IH [OF g r] g show ?case
    by (simp add: case_prod_unfold)
qed

lemma executeActions_guarded:
  assumes k: "\<not> hasItem (inventory s) (js ''golden_key'')"
    and g: "\<not> gs_get (gameState s) (js ''gameComplete'')"
    and c: "completionGuarded as"
  shows "\<not> gs_get (gameState (snd (executeActions as s))) (js ''gameComplete'')"
proof (cases "list_all (\<lambda>action. \<not> setsComplete action) as")
  case True
  from executeActions_incomplete [OF g True] show ?thesis .
next
  case False
  with c obtain fm fh rest where "as = RequireItem (js ''golden_key'') fm fh # rest"
    by (auto simp add: completionGuarded_def split: list.splits Action.splits)
  with k g show ?thesis by (simp add: outcome_def)
qed

lemma list_all_update_same:
  "map_of al k = Some v \<Longrightarrow> P (k, v') = P (k, v) \<Longrightarrow>
   list_all P (AList.update k v' al) = list_all P al"
  by (induction al) (auto split: if_splits)

lemma keyless_markExecuted:
  "keyless (markExecuted objectId t) = keyless t"
proof (cases "map_of (sceneObjects t) objectId")
  case None
  then show ?thesis by (simp add: markExecuted_def)
next
  case (Some object)
  show ?thesis
  proof (cases "interactions object")
    case Nil
    with Some show ?thesis by (simp add: markExecuted_def)
  next
    case (Cons interaction rest)
    let ?P = "\<lambda>(k, object).
       list_all (\<lambda>interaction.
           GiveItem (js ''golden_key'') \<notin> set (actions interaction) \<and>
           completionGuarded (actions interaction))
         (interactions object)"
    let ?object' = "object\<lparr>interactions := interaction\<lparr>executed := True\<rparr> # rest\<rparr>"
    have e: "?P (objectId, ?object') = ?P (objectId, object)"
      using Cons by simp
    have "list_all ?P (AList.update objectId ?object' (sceneObjects t))
            = list_all ?P (sceneObjects t)"
      by (rule list_all_update_same [OF Some e])
    with Some Cons show ?thesis by (simp add: markExecuted_def keyless_def)
  qed
qed

lemma keyless_interact:
  assumes c: "catalogued s" and k: "keyless s"
  shows "keyless (snd (interact objectId s))"
proof (cases "map_of (sceneObjects s) objectId")
  case None
  with k show ?thesis by (simp add: interact_def)
next
  case (Some object)
  show ?thesis
  proof (cases "interactions object")
    case Nil
    with Some k show ?thesis by (simp add: interact_def)
  next
    case (Cons interaction rest)
    let ?s' = "snd (executeActions (actions interaction) s)"
    from Some have "(objectId, object) \<in> set (sceneObjects s)" by (rule map_of_SomeD)
    with k Cons have g: "GiveItem (js ''golden_key'') \<notin> set (actions interaction)"
      and d: "completionGuarded (actions interaction)"
      by (auto simp add: keyless_def list_all_iff)
    from k have h: "\<not> hasItem (inventory s) (js ''golden_key'')"
      and n: "\<not> gs_get (gameState s) (js ''gameComplete'')"
      by (simp_all add: keyless_def)
    have "keyless ?s'"
      using executeActions_keyless_inventory [OF c h g] executeActions_guarded [OF h n d]
        executeActions_frame [of "actions interaction" s] k
      by (simp add: keyless_def)
    with Some Cons k show ?thesis
      by (simp add: interact_def case_prod_unfold keyless_markExecuted)
  qed
qed

lemma keyless_call:
  assumes c: "catalogued s" and k: "keyless s"
  shows "keyless (snd (call x s))"
proof (cases x)
  case (Interact objectId)
  with keyless_interact [OF c k] show ?thesis by simp
next
  case (EnterPasswordDigit d)
  with k show ?thesis
    by (simp add: enterPasswordDigit_def case_prod_unfold keyless_def)
next
  case SubmitPassword
  with k show ?thesis
    by (simp add: cs_submitPassword_def case_prod_unfold keyless_def gs_get_def gs_set_def
        setFlag_def update_conv')
qed

lemma keyless_new: "keyless ClueSystem_new"
  by (simp add: keyless_def completionGuarded_def content_defs hasItem_def gs_get_def)

lemma keyless_calls_from:
  "catalogued s \<Longrightarrow> keyless s \<Longrightarrow> keyless (calls cs s)"
proof (induction cs arbitrary: s)
  case Nil
  then show ?case by simp
next
  case (Cons x cs)
  from Cons.IH [OF catalogued_call [OF Cons.prems(1)] keyless_call [OF Cons.prems]]
  show ?case by simp
qed

lemma golden_key_never_held:
  "\<not> cs_hasItem (calls cs ClueSystem_new) (js ''golden_key'') \<and>
   \<not> isGameComplete (calls cs ClueSystem_new)"
  using keyless_calls_from [OF catalogued_new keyless_new, of cs]
  by (simp add: keyless_def cs_hasItem_def isGameComplete_def)

end
